theory Spec2Isabelle
  imports Complex_Main "HOL-Library.AList"
begin

section \<open>JavaScript values used by the balance monitor\<close>

text \<open>
  The monitor computes with JavaScript numbers that may also be \<open>undefined\<close>
  (a ticker without \<open>last\<close>, a balance entry without an amount).  A finite number
  carries a real: rounding, overflow to infinity and the sign of zero are not modelled.
  What is modelled is everything the control flow of the monitor looks at: truthiness
  (\<open>0\<close>, \<open>NaN\<close> and \<open>undefined\<close> are falsy), \<open>1 / 0 = Infinity\<close>,
  \<open>1 / undefined = NaN\<close>, and comparisons with \<open>NaN\<close> being false.
\<close>

datatype jsval = Undefined | NaN | Num real | PosInf | NegInf

fun truthy :: "jsval \<Rightarrow> bool" where
  "truthy (Num r) = (r \<noteq> 0)"
| "truthy PosInf = True"
| "truthy NegInf = True"
| "truthy Undefined = False"
| "truthy NaN = False"

text \<open>\<open>a || b\<close>\<close>

definition js_or :: "jsval \<Rightarrow> jsval \<Rightarrow> jsval" where
  "js_or a b = (if truthy a then a else b)"

text \<open>The infinity with the sign of \<open>r\<close>; \<open>NaN\<close> for \<open>r = 0\<close>.\<close>

definition inf_of_sign :: "real \<Rightarrow> jsval" where
  "inf_of_sign r = (if 0 < r then PosInf else if r < 0 then NegInf else NaN)"

text \<open>\<open>Math.abs(a)\<close>\<close>

fun js_abs :: "jsval \<Rightarrow> jsval" where
  "js_abs (Num r) = Num \<bar>r\<bar>"
| "js_abs PosInf = PosInf"
| "js_abs NegInf = PosInf"
| "js_abs Undefined = NaN"
| "js_abs NaN = NaN"

text \<open>\<open>a < b\<close>; \<open>a > b\<close> is \<open>js_lt b a\<close>.\<close>

fun js_lt :: "jsval \<Rightarrow> jsval \<Rightarrow> bool" where
  "js_lt (Num a) (Num b) = (a < b)"
| "js_lt (Num a) PosInf = True"
| "js_lt NegInf (Num b) = True"
| "js_lt NegInf PosInf = True"
| "js_lt _ _ = False"

text \<open>\<open>a <= b\<close>; \<open>a >= b\<close> is \<open>js_le b a\<close>.\<close>

fun js_le :: "jsval \<Rightarrow> jsval \<Rightarrow> bool" where
  "js_le (Num a) (Num b) = (a \<le> b)"
| "js_le (Num a) PosInf = True"
| "js_le NegInf (Num b) = True"
| "js_le NegInf PosInf = True"
| "js_le PosInf PosInf = True"
| "js_le NegInf NegInf = True"
| "js_le _ _ = False"

text \<open>\<open>a * b\<close>\<close>

fun js_mul :: "jsval \<Rightarrow> jsval \<Rightarrow> jsval" where
  "js_mul (Num a) (Num b) = Num (a * b)"
| "js_mul (Num a) PosInf = inf_of_sign a"
| "js_mul (Num a) NegInf = inf_of_sign (- a)"
| "js_mul PosInf (Num b) = inf_of_sign b"
| "js_mul NegInf (Num b) = inf_of_sign (- b)"
| "js_mul PosInf PosInf = PosInf"
| "js_mul PosInf NegInf = NegInf"
| "js_mul NegInf PosInf = NegInf"
| "js_mul NegInf NegInf = PosInf"
| "js_mul _ _ = NaN"

text \<open>\<open>a + b\<close>\<close>

fun js_add :: "jsval \<Rightarrow> jsval \<Rightarrow> jsval" where
  "js_add (Num a) (Num b) = Num (a + b)"
| "js_add (Num a) PosInf = PosInf"
| "js_add (Num a) NegInf = NegInf"
| "js_add PosInf (Num b) = PosInf"
| "js_add NegInf (Num b) = NegInf"
| "js_add PosInf PosInf = PosInf"
| "js_add NegInf NegInf = NegInf"
| "js_add _ _ = NaN"

text \<open>\<open>a / b\<close>\<close>

fun js_div :: "jsval \<Rightarrow> jsval \<Rightarrow> jsval" where
  "js_div (Num a) (Num b) = (if b = 0 then inf_of_sign a else Num (a / b))"
| "js_div (Num a) PosInf = Num 0"
| "js_div (Num a) NegInf = Num 0"
| "js_div PosInf (Num b) = (if b < 0 then NegInf else PosInf)"
| "js_div NegInf (Num b) = (if b < 0 then PosInf else NegInf)"
| "js_div _ _ = NaN"

text \<open>\<open>s.startsWith(p)\<close> and \<open>s.endsWith(p)\<close>\<close>

definition startsWith :: "string \<Rightarrow> string \<Rightarrow> bool" where
  "startsWith s p = (take (length p) s = p)"

definition endsWith :: "string \<Rightarrow> string \<Rightarrow> bool" where
  "endsWith s p = (length p \<le> length s \<and> drop (length s - length p) s = p)"

section \<open>Data model\<close>

text \<open>
  A JavaScript object used as a dictionary is an association list with distinct keys in
  insertion order: \<open>obj[k] = v\<close> is \<^const>\<open>AList.update\<close> (in place for a key that
  is present, appended otherwise), \<open>delete obj[k]\<close> is \<^const>\<open>AList.delete\<close>,
  \<open>obj[k]\<close> is \<^const>\<open>map_of\<close> and \<open>Object.entries(obj)\<close> is the list itself.
  (JavaScript lists keys that are canonical array indices first; currency codes and
  market symbols are not.)
\<close>

datatype asset_type = spot | futures

record asset =
  symbol :: string
  amount :: jsval
  baseValue :: jsval
  type :: asset_type

type_synonym assets = "(string \<times> asset) list"

text \<open>\<open>balancesObj[groupName]\<close>; an absent \<open>spotBalance\<close>/\<open>earnBalance\<close> is \<open>None\<close>.\<close>

record group =
  exchange :: string
  balances :: assets
  baseCurrency :: string
  total :: jsval
  spotBalance :: "jsval option"
  earnBalance :: "jsval option"

type_synonym balancesObj = "string \<rightharpoonup> group"

type_synonym balanceCache = "(string \<times> jsval) list"

text \<open>\<open>balanceData.total\<close>: \<open>None\<close> when the snapshot has no \<open>total\<close>.\<close>

type_synonym balanceData = "(string \<times> jsval) list option"

datatype error = Error string

record ticker =
  ticker_last :: jsval
  ticker_close :: jsval

record position =
  pos_symbol :: string
  contracts :: jsval
  unrealizedPnl :: jsval

text \<open>
  An entry of \<open>exchange.fetchAccounts()\<close> (coinbase): \<open>available\<close> and \<open>hold\<close>
  are \<open>parseFloat(account.info.available_balance.value || 0)\<close> and
  \<open>parseFloat(account.info.hold.value || 0)\<close>.
\<close>

record account_entry =
  code :: string
  available :: jsval
  hold :: jsval

text \<open>An entry of \<open>privateEarnGetUniLends\<close>: \<open>lend_amount\<close> is \<open>parseFloat(lend.amount)\<close>.\<close>

record lend =
  lend_currency :: string
  lend_amount :: jsval

datatype params = NoParams | TypeParam string

text \<open>
  A public exchange of the fallback list, after \<open>loadMarkets\<close>: which market pairs
  exist, and what \<open>fetchTicker\<close> answers (\<open>Inl\<close> when it throws).  The answers of the
  network are fixed for the duration of one pass.
\<close>

record pubex =
  markets :: "string \<Rightarrow> bool"
  fetchTicker :: "string \<Rightarrow> error + ticker"

text \<open>
  The exchange connection: \<open>ex_id\<close> is \<open>exchange.id\<close>, \<open>has_fetchPositions\<close> is
  \<open>exchange.has['fetchPositions']\<close>, \<open>defaultType\<close> is \<open>exchange.options?.defaultType\<close>.
  A fetch that throws answers \<open>Inl\<close>; \<open>loadMarkets\<close> is \<open>Some e\<close> when it throws.
\<close>

record exchange_conn = pubex +
  ex_id :: string
  has_fetchPositions :: bool
  defaultType :: "string option"
  isFundAccount :: bool
  fetchBalance :: "params \<Rightarrow> error + balanceData"
  fetchAccounts :: "error + account_entry list"
  fetchPositions :: "error + position list"
  loadMarkets :: "error option"
  privateEarnGetUniLends :: "error + lend list"

text \<open>
  \<open>new ccxt[exchangeId]({enableRateLimit: true})\<close> followed by \<open>loadMarkets()\<close>:
  \<open>Inl\<close> when either throws.
\<close>

type_synonym ccxt = "string \<Rightarrow> error + pubex"

section \<open>Price lookup\<close>

text \<open>The candidate list \<open>possiblePairs\<close>, built the same way at every place that needs a price.\<close>

definition possiblePairs :: "string \<Rightarrow> string \<Rightarrow> string list" where
  "possiblePairs currency baseCur =
     [currency @ ''/'' @ baseCur,
      baseCur @ ''/'' @ currency,
      currency @ ''/USD'',
      ''USD/'' @ currency,
      currency @ ''/USDT'',
      ''USDT/'' @ currency]"

text \<open>
  \<open>pair.startsWith(`${baseCurrency}/`) || pair.startsWith('USD/') || pair.startsWith('USDT/')\<close>
\<close>

definition invertPrice :: "string \<Rightarrow> string \<Rightarrow> bool" where
  "invertPrice pair baseCur =
     (startsWith pair (baseCur @ ''/'') \<or> startsWith pair ''USD/'' \<or> startsWith pair ''USDT/'')"

text \<open>\<open>for (const pair of possiblePairs) if (exchange.markets[pair]) { ...; break }\<close>\<close>

definition firstMarket :: "'a pubex_scheme \<Rightarrow> string list \<Rightarrow> string option" where
  "firstMarket ex pairs = find (markets ex) pairs"

definition alternativeExchanges :: "string list" where
  "alternativeExchanges = [''binance'', ''kraken'', ''coinbasepro'']"

text \<open>
  \<open>fetchPriceFromAlternativeExchange\<close> of \<open>ws.js\<close> (identical in the fund-account
  revision of \<open>ws.js\<close>).  The result \<open>None\<close> is \<open>null\<close>.  Any exception inside the
  body of the loop (constructing the exchange, loading markets, fetching the ticker)
  continues with the next exchange.
\<close>

fun altLoop :: "ccxt \<Rightarrow> string \<Rightarrow> string \<Rightarrow> string list \<Rightarrow> jsval option" where
  "altLoop cc currency baseCur [] = None"
| "altLoop cc currency baseCur (exchangeId # rest) =
     (case cc exchangeId of
        Inl e \<Rightarrow> altLoop cc currency baseCur rest
      | Inr altExchange \<Rightarrow>
          (case firstMarket altExchange (possiblePairs currency baseCur) of
             None \<Rightarrow> altLoop cc currency baseCur rest
           | Some pair \<Rightarrow>
               (case fetchTicker altExchange pair of
                  Inl e \<Rightarrow> altLoop cc currency baseCur rest
                | Inr t \<Rightarrow>
                    (let price = js_or (ticker_last t) (ticker_close t)
                     in Some (if invertPrice pair baseCur then js_div (Num 1) price
                              else price)))))"

definition fetchPriceFromAlternativeExchange :: "ccxt \<Rightarrow> string \<Rightarrow> string \<Rightarrow> jsval option" where
  "fetchPriceFromAlternativeExchange cc currency baseCur =
     altLoop cc currency baseCur alternativeExchanges"

text \<open>
  \<open>fetchPriceFromAlternativeExchange\<close> of \<open>rest.js\<close>: it returns
  \<open>ticker.last || ticker.close\<close> as fetched.
\<close>

fun rest_altLoop :: "ccxt \<Rightarrow> string \<Rightarrow> string \<Rightarrow> string list \<Rightarrow> jsval option" where
  "rest_altLoop cc currency baseCur [] = None"
| "rest_altLoop cc currency baseCur (exchangeId # rest) =
     (case cc exchangeId of
        Inl e \<Rightarrow> rest_altLoop cc currency baseCur rest
      | Inr altExchange \<Rightarrow>
          (case firstMarket altExchange (possiblePairs currency baseCur) of
             None \<Rightarrow> rest_altLoop cc currency baseCur rest
           | Some pair \<Rightarrow>
               (case fetchTicker altExchange pair of
                  Inl e \<Rightarrow> rest_altLoop cc currency baseCur rest
                | Inr t \<Rightarrow> Some (js_or (ticker_last t) (ticker_close t)))))"

definition rest_fetchPriceFromAlternativeExchange ::
  "ccxt \<Rightarrow> string \<Rightarrow> string \<Rightarrow> jsval option" where
  "rest_fetchPriceFromAlternativeExchange cc currency baseCur =
     rest_altLoop cc currency baseCur alternativeExchanges"

text \<open>
  The price part of the loop over the cache in \<open>ws.js\<close> (the same text in
  \<open>processBalanceData\<close> and \<open>compileAndUpdateBalances\<close>, in both revisions): the
  first candidate pair on the connection's own exchange, its ticker, the inversion, and
  the fallback when there is no pair or the ticker throws.  \<open>None\<close> is the
  \<open>continue\<close> taken at \<open>price === null\<close>.
\<close>

definition lookupPrice :: "'a pubex_scheme \<Rightarrow> ccxt \<Rightarrow> string \<Rightarrow> string \<Rightarrow> jsval option" where
  "lookupPrice ex cc currency baseCur =
     (case firstMarket ex (possiblePairs currency baseCur) of
        None \<Rightarrow> fetchPriceFromAlternativeExchange cc currency baseCur
      | Some marketId \<Rightarrow>
          (case fetchTicker ex marketId of
             Inr t \<Rightarrow>
               (let priceValue = js_or (ticker_last t) (ticker_close t)
                in Some (if invertPrice marketId baseCur then js_div (Num 1) priceValue
                         else priceValue))
           | Inl e \<Rightarrow> fetchPriceFromAlternativeExchange cc currency baseCur))"

section \<open>The normalizer of \<open>ws.js\<close>\<close>

text \<open>
  A pass is modelled as running alone, from its first statement to its last or to the
  exception that ends it: what another connection's pass may do to the same group record
  between two \<open>await\<close>s is not modelled.
\<close>

text \<open>The first loop: merging \<open>balanceData.total\<close> into the cache.\<close>

fun updateCache :: "balanceCache \<Rightarrow> (string \<times> jsval) list \<Rightarrow> balanceCache" where
  "updateCache balanceCache [] = balanceCache"
| "updateCache balanceCache ((currency, amt) # rest) =
     (if truthy amt \<and> js_lt (Num (1 / 1000000)) (js_abs amt)
      then updateCache (AList.update currency amt balanceCache) rest
      else if (case map_of balanceCache currency of None \<Rightarrow> False | Some v \<Rightarrow> truthy v)
      then updateCache (AList.delete currency balanceCache) rest
      else updateCache balanceCache rest)"

text \<open>
  One iteration of the second loop: the asset stored under the currency, or \<open>None\<close>
  when the iteration ends in a \<open>continue\<close>.
\<close>

definition valueEntry ::
  "'a pubex_scheme \<Rightarrow> ccxt \<Rightarrow> string \<Rightarrow> string \<Rightarrow> jsval \<Rightarrow> asset option" where
  "valueEntry ex cc baseCur currency amt =
     (case (if currency \<noteq> baseCur
            then (case lookupPrice ex cc currency baseCur of
                    None \<Rightarrow> None
                  | Some price \<Rightarrow> if truthy price then Some (js_mul amt price) else None)
            else Some amt) of
        None \<Rightarrow> None
      | Some v \<Rightarrow>
          if js_lt (js_abs v) (Num (1 / 100)) then None
          else Some \<lparr>symbol = currency, amount = amt, baseValue = v, type = spot\<rparr>)"

fun processCache ::
  "'a pubex_scheme \<Rightarrow> ccxt \<Rightarrow> string \<Rightarrow> balanceCache \<Rightarrow> assets \<Rightarrow> assets" where
  "processCache ex cc baseCur [] newAssets = newAssets"
| "processCache ex cc baseCur ((currency, amt) # rest) newAssets =
     (case valueEntry ex cc baseCur currency amt of
        None \<Rightarrow> processCache ex cc baseCur rest newAssets
      | Some a \<Rightarrow> processCache ex cc baseCur rest (AList.update currency a newAssets))"

text \<open>
  The loop over the open positions, inside its \<open>try\<close>: a ticker that throws ends the
  loop with the assets recorded so far.
\<close>

fun positionsLoop :: "'a pubex_scheme \<Rightarrow> position list \<Rightarrow> assets \<Rightarrow> assets" where
  "positionsLoop ex [] newAssets = newAssets"
| "positionsLoop ex (p # rest) newAssets =
     (if contracts p \<noteq> Num 0 then
        (if markets ex (pos_symbol p) then
           (case fetchTicker ex (pos_symbol p) of
              Inl e \<Rightarrow> newAssets
            | Inr t \<Rightarrow>
                (let UPNL = js_or (unrealizedPnl p) (Num 0)
                 in if js_lt (js_abs UPNL) (Num (1 / 100)) then positionsLoop ex rest newAssets
                    else positionsLoop ex rest
                           (AList.update (pos_symbol p)
                              \<lparr>symbol = pos_symbol p, amount = contracts p,
                               baseValue = UPNL, type = futures\<rparr> newAssets)))
         else positionsLoop ex rest newAssets)
      else positionsLoop ex rest newAssets)"

text \<open>\<open>Object.values(newAssets).reduce((acc, curr) => acc + curr.baseValue, 0)\<close>\<close>

definition sumBaseValues :: "assets \<Rightarrow> jsval" where
  "sumBaseValues newAssets = foldl (\<lambda>acc curr. js_add acc (baseValue curr)) (Num 0) (map snd newAssets)"

definition TypeError :: error where
  "TypeError = Error ''TypeError''"

text \<open>\<open>balanceData.total || {}\<close>\<close>

definition totalOf :: "balanceData \<Rightarrow> (string \<times> jsval) list" where
  "totalOf balanceData = (case balanceData of None \<Rightarrow> [] | Some t \<Rightarrow> t)"

text \<open>The positions block of \<open>processBalanceData\<close>: \<open>if (exchange.has['fetchPositions']) try {...}\<close>.\<close>

definition ws_positions :: "exchange_conn \<Rightarrow> assets \<Rightarrow> assets" where
  "ws_positions ex newAssets =
     (if has_fetchPositions ex then
        (case fetchPositions ex of
           Inl e \<Rightarrow> newAssets
         | Inr positions \<Rightarrow> positionsLoop ex positions newAssets)
      else newAssets)"

text \<open>
  \<open>processBalanceData\<close> of \<open>ws.js\<close>.  The passes return the exception that
  ended them, if any, and the state as it is then: the global balances object and the
  connection's cache.  A group that was never initialised makes
  \<open>balancesObj[groupName].baseCurrency\<close> throw.
\<close>

definition ws_processBalanceData ::
  "exchange_conn \<Rightarrow> ccxt \<Rightarrow> balanceData \<Rightarrow> string \<Rightarrow> balancesObj \<Rightarrow> balanceCache
     \<Rightarrow> error option \<times> balancesObj \<times> balanceCache" where
  "ws_processBalanceData ex cc balanceData groupName balancesObj balanceCache =
     (case balancesObj groupName of
        None \<Rightarrow> (Some TypeError, balancesObj, balanceCache)
      | Some g \<Rightarrow>
          (let cache' = updateCache balanceCache (totalOf balanceData);
               newAssets = ws_positions ex (processCache ex cc (baseCurrency g) cache' [])
           in (None,
               balancesObj(groupName \<mapsto> g\<lparr>balances := newAssets, total := sumBaseValues newAssets\<rparr>),
               cache')))"

text \<open>The push path of \<open>ws.js\<close>: the same two loops, no positions.\<close>

definition ws_compileAndUpdateBalances ::
  "exchange_conn \<Rightarrow> ccxt \<Rightarrow> balanceData \<Rightarrow> string \<Rightarrow> balancesObj \<Rightarrow> balanceCache
     \<Rightarrow> error option \<times> balancesObj \<times> balanceCache" where
  "ws_compileAndUpdateBalances ex cc balanceData groupName balancesObj balanceCache =
     (let cache' = updateCache balanceCache (totalOf balanceData)
      in case balancesObj groupName of
           None \<Rightarrow> (Some TypeError, balancesObj, cache')
         | Some g \<Rightarrow>
             (let newAssets = processCache ex cc (baseCurrency g) cache' []
              in (None,
                  balancesObj(groupName \<mapsto> g\<lparr>balances := newAssets, total := sumBaseValues newAssets\<rparr>),
                  cache')))"

text \<open>\<open>obj[k]\<close> read as a value: \<open>undefined\<close> for a key that is absent.\<close>

definition js_get :: "(string \<times> jsval) list \<Rightarrow> string \<Rightarrow> jsval" where
  "js_get obj k = (case map_of obj k of None \<Rightarrow> Undefined | Some v \<Rightarrow> v)"

text \<open>\<open>{...a, ...b}\<close>\<close>

definition spread :: "(string \<times> jsval) list \<Rightarrow> (string \<times> jsval) list \<Rightarrow> (string \<times> jsval) list" where
  "spread a b = foldl (\<lambda>acc (k, v). AList.update k v acc) a b"

text \<open>The loop over the coinbase accounts in \<open>fetchCompleteBalance\<close> of \<open>ws.js\<close>.\<close>

fun accountTotals :: "account_entry list \<Rightarrow> (string \<times> jsval) list \<Rightarrow> (string \<times> jsval) list" where
  "accountTotals [] totalBalances = totalBalances"
| "accountTotals (a # rest) totalBalances =
     (let tot = js_add (available a) (hold a);
          tb = (if \<not> truthy (js_get totalBalances (code a))
                then AList.update (code a) (Num 0) totalBalances else totalBalances)
      in accountTotals rest (AList.update (code a) (js_add (js_get tb (code a)) tot) tb))"

text \<open>
  \<open>fetchCompleteBalance\<close> of \<open>ws.js\<close>.  Whatever throws inside the \<open>try\<close> gives
  \<open>{total: {}}\<close>, which is \<open>Some []\<close>.
\<close>

definition ws_fetchCompleteBalance :: "exchange_conn \<Rightarrow> balanceData" where
  "ws_fetchCompleteBalance ex =
     (if ex_id ex = ''coinbase'' then
        (case fetchBalance ex NoParams of
           Inl e \<Rightarrow> Some []
         | Inr balanceData \<Rightarrow>
             (case fetchAccounts ex of
                Inl e \<Rightarrow> Some []
              | Inr accounts \<Rightarrow> Some (accountTotals accounts [])))
      else if ex_id ex = ''gateio'' then
        (case fetchBalance ex (TypeParam ''swap'') of
           Inl e \<Rightarrow> Some []
         | Inr balanceData \<Rightarrow> balanceData)
      else
        (case fetchBalance ex NoParams of
           Inl e \<Rightarrow> Some []
         | Inr balanceData \<Rightarrow> balanceData))"

text \<open>One turn of \<open>startPolling\<close> in \<open>ws.js\<close>: fetch, then normalize.\<close>

definition ws_poll ::
  "exchange_conn \<Rightarrow> ccxt \<Rightarrow> string \<Rightarrow> balancesObj \<Rightarrow> balanceCache
     \<Rightarrow> error option \<times> balancesObj \<times> balanceCache" where
  "ws_poll ex cc groupName balancesObj balanceCache =
     ws_processBalanceData ex cc (ws_fetchCompleteBalance ex) groupName balancesObj balanceCache"

section \<open>The fund-account revision of \<open>ws.js\<close>\<close>

text \<open>
  The second revision of \<open>ws.js\<close> in the repository marks fund accounts, fetches
  positions only for \<open>defaultType === 'swap'\<close>, and adds the supplementary balances.
\<close>

record account =
  acc_n :: string
  acc_e :: string
  acc_baseCurrency :: string
  acc_defaultType :: "string option"

text \<open>
  \<open>monitorBalances\<close> up to the start of the loop.  \<open>exchangeClass e\<close> is
  \<open>new ccxt[e]({...})\<close>, \<open>None\<close> when \<open>ccxt[e]\<close> does not exist (the
  function then returns at once).  The result is the connection, the balances object and
  the fresh cache.
\<close>

definition fund_monitorBalances ::
  "account \<Rightarrow> (string \<Rightarrow> exchange_conn option) \<Rightarrow> string \<Rightarrow> balancesObj
     \<Rightarrow> (exchange_conn \<times> balancesObj \<times> balanceCache) option" where
  "fund_monitorBalances acct exchangeClass groupName balancesObj =
     (case exchangeClass (acc_e acct) of
        None \<Rightarrow> None
      | Some ex0 \<Rightarrow>
          (let ex = (if endsWith (acc_n acct) '' Fund'' \<and> acc_defaultType acct = Some ''swap''
                     then ex0\<lparr>isFundAccount := True\<rparr> else ex0);
               bo = (case balancesObj groupName of
                       None \<Rightarrow> balancesObj(groupName \<mapsto>
                                 \<lparr>exchange = groupName, balances = [],
                                  baseCurrency = acc_baseCurrency acct, total = Num 0,
                                  spotBalance = None, earnBalance = None\<rparr>)
                     | Some g \<Rightarrow> balancesObj)
           in Some (ex, bo, [])))"

text \<open>
  \<open>fetchCompleteBalance\<close> of this revision: for gateio the product type is
  \<open>exchange.options?.defaultType || 'swap'\<close>.
\<close>

definition fund_fetchCompleteBalance :: "exchange_conn \<Rightarrow> balanceData" where
  "fund_fetchCompleteBalance ex =
     (if ex_id ex = ''coinbase'' then
        (case fetchBalance ex NoParams of
           Inl e \<Rightarrow> Some []
         | Inr balanceData \<Rightarrow>
             (case fetchAccounts ex of
                Inl e \<Rightarrow> Some []
              | Inr accounts \<Rightarrow> Some (accountTotals accounts [])))
      else if ex_id ex = ''gateio'' then
        (case fetchBalance ex
                (TypeParam (case defaultType ex of
                              None \<Rightarrow> ''swap''
                            | Some t \<Rightarrow> if t = [] then ''swap'' else t)) of
           Inl e \<Rightarrow> Some []
         | Inr balanceData \<Rightarrow> balanceData)
      else
        (case fetchBalance ex NoParams of
           Inl e \<Rightarrow> Some []
         | Inr balanceData \<Rightarrow> balanceData))"

text \<open>\<open>parseFloat\<close> of a ticker field: a number is itself, \<open>undefined\<close> is \<open>NaN\<close>.\<close>

definition parseFloat :: "jsval \<Rightarrow> jsval" where
  "parseFloat v = (case v of Undefined \<Rightarrow> NaN | _ \<Rightarrow> v)"

text \<open>
  \<open>fetchGateioEarnBalance\<close>: the loop over the lends, and the function with its
  \<open>try\<close> that answers 0 when loading the markets or fetching the lends throws.
\<close>

fun earnLoop :: "exchange_conn \<Rightarrow> lend list \<Rightarrow> jsval \<Rightarrow> jsval" where
  "earnLoop ex [] totalUSDTValue = totalUSDTValue"
| "earnLoop ex (l # rest) totalUSDTValue =
     (if js_lt (Num 0) (lend_amount l) then
        (if lend_currency l = ''USDT'' \<or> lend_currency l = ''USDC''
         then earnLoop ex rest (js_add totalUSDTValue (lend_amount l))
         else (case fetchTicker ex (lend_currency l @ ''/USDT'') of
                 Inl e \<Rightarrow> earnLoop ex rest totalUSDTValue
               | Inr t \<Rightarrow>
                   earnLoop ex rest
                     (js_add totalUSDTValue (js_mul (lend_amount l) (parseFloat (ticker_last t))))))
      else earnLoop ex rest totalUSDTValue)"

definition fetchGateioEarnBalance :: "exchange_conn \<Rightarrow> jsval" where
  "fetchGateioEarnBalance ex =
     (case loadMarkets ex of
        Some e \<Rightarrow> Num 0
      | None \<Rightarrow>
          (case privateEarnGetUniLends ex of
             Inl e \<Rightarrow> Num 0
           | Inr response \<Rightarrow> earnLoop ex response (Num 0)))"

text \<open>
  The block after the total, \<open>if (exchange.isFundAccount) {...}\<close>: each fetch sits in
  its own \<open>try\<close>, and a \<open>spotData\<close> without \<open>total\<close> throws inside the first.
\<close>

definition fundAccountStep :: "exchange_conn \<Rightarrow> group \<Rightarrow> group" where
  "fundAccountStep ex g =
     (if isFundAccount ex then
        (let spotB = (case fetchBalance ex (TypeParam ''spot'') of
                        Inl e \<Rightarrow> Num 0
                      | Inr None \<Rightarrow> Num 0
                      | Inr (Some t) \<Rightarrow> js_or (js_get t (baseCurrency g)) (Num 0));
             earnB = (if ex_id ex = ''gateio'' then fetchGateioEarnBalance ex else Num 0)
         in g\<lparr>spotBalance := Some spotB, earnBalance := Some earnB\<rparr>)
      else g)"

text \<open>The positions block of this revision, with its gate on \<open>defaultType\<close>.\<close>

definition fund_positions :: "exchange_conn \<Rightarrow> assets \<Rightarrow> assets" where
  "fund_positions ex newAssets =
     (if has_fetchPositions ex \<and> defaultType ex = Some ''swap'' then
        (case fetchPositions ex of
           Inl e \<Rightarrow> newAssets
         | Inr positions \<Rightarrow> positionsLoop ex positions newAssets)
      else newAssets)"

text \<open>\<open>processBalanceData\<close> and \<open>compileAndUpdateBalances\<close> of this revision.\<close>

definition fund_processBalanceData ::
  "exchange_conn \<Rightarrow> ccxt \<Rightarrow> balanceData \<Rightarrow> string \<Rightarrow> balancesObj \<Rightarrow> balanceCache
     \<Rightarrow> error option \<times> balancesObj \<times> balanceCache" where
  "fund_processBalanceData ex cc balanceData groupName balancesObj balanceCache =
     (case balancesObj groupName of
        None \<Rightarrow> (Some TypeError, balancesObj, balanceCache)
      | Some g \<Rightarrow>
          (let cache' = updateCache balanceCache (totalOf balanceData);
               newAssets = fund_positions ex (processCache ex cc (baseCurrency g) cache' []);
               g' = g\<lparr>balances := newAssets, total := sumBaseValues newAssets\<rparr>
           in (None, balancesObj(groupName \<mapsto> fundAccountStep ex g'), cache')))"

definition fund_compileAndUpdateBalances ::
  "exchange_conn \<Rightarrow> ccxt \<Rightarrow> balanceData \<Rightarrow> string \<Rightarrow> balancesObj \<Rightarrow> balanceCache
     \<Rightarrow> error option \<times> balancesObj \<times> balanceCache" where
  "fund_compileAndUpdateBalances ex cc balanceData groupName balancesObj balanceCache =
     (let cache' = updateCache balanceCache (totalOf balanceData)
      in case balancesObj groupName of
           None \<Rightarrow> (Some TypeError, balancesObj, cache')
         | Some g \<Rightarrow>
             (let newAssets = fund_positions ex (processCache ex cc (baseCurrency g) cache' []);
                  g' = g\<lparr>balances := newAssets, total := sumBaseValues newAssets\<rparr>
              in (None, balancesObj(groupName \<mapsto> fundAccountStep ex g'), cache')))"

text \<open>One turn of \<open>startPolling\<close> in this revision.\<close>

definition fund_poll ::
  "exchange_conn \<Rightarrow> ccxt \<Rightarrow> string \<Rightarrow> balancesObj \<Rightarrow> balanceCache
     \<Rightarrow> error option \<times> balancesObj \<times> balanceCache" where
  "fund_poll ex cc groupName balancesObj balanceCache =
     fund_processBalanceData ex cc (fund_fetchCompleteBalance ex) groupName balancesObj balanceCache"

section \<open>The normalizer of \<open>rest.js\<close>\<close>

text \<open>
  \<open>fetchCompleteBalance\<close> of \<open>rest.js\<close>: for coinbase the totals of the cash
  balance are spread over those of the default balance.
\<close>

definition rest_fetchCompleteBalance :: "exchange_conn \<Rightarrow> balanceData" where
  "rest_fetchCompleteBalance ex =
     (if ex_id ex = ''coinbase'' then
        (case fetchBalance ex NoParams of
           Inl e \<Rightarrow> Some []
         | Inr balanceData \<Rightarrow>
             (case fetchBalance ex (TypeParam ''cash'') of
                Inl e \<Rightarrow> Some []
              | Inr cashBalance \<Rightarrow>
                  Some (spread (totalOf balanceData) (totalOf cashBalance))))
      else if ex_id ex = ''gateio'' then
        (case fetchBalance ex (TypeParam ''swap'') of
           Inl e \<Rightarrow> Some []
         | Inr balanceData \<Rightarrow> balanceData)
      else
        (case fetchBalance ex NoParams of
           Inl e \<Rightarrow> Some []
         | Inr balanceData \<Rightarrow> balanceData))"

text \<open>
  The price part of the loop over \<open>totalBalances\<close>: \<open>Inl\<close> when the ticker of the
  connection's own exchange throws (nothing catches it inside the pass), \<open>Inr None\<close>
  for the \<open>continue\<close> at \<open>price === null\<close>.
\<close>

definition rest_lookupPrice ::
  "'a pubex_scheme \<Rightarrow> ccxt \<Rightarrow> string \<Rightarrow> string \<Rightarrow> error + jsval option" where
  "rest_lookupPrice ex cc currency baseCur =
     (case firstMarket ex (possiblePairs currency baseCur) of
        None \<Rightarrow> Inr (rest_fetchPriceFromAlternativeExchange cc currency baseCur)
      | Some marketId \<Rightarrow>
          (case fetchTicker ex marketId of
             Inl e \<Rightarrow> Inl e
           | Inr t \<Rightarrow>
               (let price = js_or (ticker_last t) (ticker_close t)
                in Inr (Some (if invertPrice marketId baseCur then js_div (Num 1) price
                              else price)))))"

text \<open>
  One iteration of the loop for an amount that passed the threshold: the asset stored
  under the currency, \<open>Inr None\<close> for a \<open>continue\<close>, \<open>Inl\<close> for the exception.
\<close>

definition rest_valueEntry ::
  "'a pubex_scheme \<Rightarrow> ccxt \<Rightarrow> string \<Rightarrow> string \<Rightarrow> jsval \<Rightarrow> error + asset option" where
  "rest_valueEntry ex cc baseCur currency amt =
     (if currency \<noteq> baseCur then
        (case rest_lookupPrice ex cc currency baseCur of
           Inl e \<Rightarrow> Inl e
         | Inr None \<Rightarrow> Inr None
         | Inr (Some price) \<Rightarrow>
             Inr (if truthy price
                  then Some \<lparr>symbol = currency, amount = amt,
                             baseValue = js_mul amt price, type = spot\<rparr>
                  else None))
      else Inr (Some \<lparr>symbol = currency, amount = amt, baseValue = amt, type = spot\<rparr>))"

text \<open>
  The loop writes into \<open>balancesObj[groupName].balances\<close> itself, so the assets
  written before an exception stay published.
\<close>

fun rest_spotLoop ::
  "'a pubex_scheme \<Rightarrow> ccxt \<Rightarrow> string \<Rightarrow> (string \<times> jsval) list \<Rightarrow> assets
     \<Rightarrow> error option \<times> assets" where
  "rest_spotLoop ex cc baseCur [] assets = (None, assets)"
| "rest_spotLoop ex cc baseCur ((currency, amt) # rest) assets =
     (if truthy amt \<and> js_lt (Num (1 / 100000000)) (js_abs amt) then
        (case rest_valueEntry ex cc baseCur currency amt of
           Inl e \<Rightarrow> (Some e, assets)
         | Inr None \<Rightarrow> rest_spotLoop ex cc baseCur rest assets
         | Inr (Some a) \<Rightarrow> rest_spotLoop ex cc baseCur rest (AList.update currency a assets))
      else rest_spotLoop ex cc baseCur rest assets)"

text \<open>The loop over the positions: no market check, no threshold on the value.\<close>

fun rest_positionsLoop :: "'a pubex_scheme \<Rightarrow> position list \<Rightarrow> assets \<Rightarrow> assets" where
  "rest_positionsLoop ex [] assets = assets"
| "rest_positionsLoop ex (p # rest) assets =
     (if contracts p \<noteq> Num 0 then
        (case fetchTicker ex (pos_symbol p) of
           Inl e \<Rightarrow> assets
         | Inr t \<Rightarrow>
             rest_positionsLoop ex rest
               (AList.update (pos_symbol p)
                  \<lparr>symbol = pos_symbol p, amount = contracts p,
                   baseValue = js_or (unrealizedPnl p) (Num 0), type = futures\<rparr> assets))
      else rest_positionsLoop ex rest assets)"

text \<open>\<open>if (totalBalances['USDC']) {...}\<close>: a truthy USDC amount moves to the front.\<close>

definition usdcFirst :: "(string \<times> jsval) list \<Rightarrow> (string \<times> jsval) list" where
  "usdcFirst totalBalances =
     (if truthy (js_get totalBalances ''USDC'')
      then (''USDC'', js_get totalBalances ''USDC'') # AList.delete ''USDC'' totalBalances
      else totalBalances)"

text \<open>The positions block of \<open>rest.js\<close>.\<close>

definition rest_positions :: "exchange_conn \<Rightarrow> assets \<Rightarrow> assets" where
  "rest_positions ex assets =
     (if has_fetchPositions ex then
        (case fetchPositions ex of
           Inl e \<Rightarrow> assets
         | Inr positions \<Rightarrow> rest_positionsLoop ex positions assets)
      else assets)"

text \<open>
  \<open>processBalanceData\<close> of \<open>rest.js\<close>.  There is no cache.  An exception in
  the loop over the balances leaves the pass before the positions are read and before
  the total is recomputed.
\<close>

definition rest_processBalanceData ::
  "exchange_conn \<Rightarrow> ccxt \<Rightarrow> balanceData \<Rightarrow> string \<Rightarrow> balancesObj
     \<Rightarrow> error option \<times> balancesObj" where
  "rest_processBalanceData ex cc balanceData groupName balancesObj =
     (case balancesObj groupName of
        None \<Rightarrow> (Some TypeError, balancesObj)
      | Some g \<Rightarrow>
          (case rest_spotLoop ex cc (baseCurrency g) (usdcFirst (totalOf balanceData)) [] of
             (Some e, assets) \<Rightarrow> (Some e, balancesObj(groupName \<mapsto> g\<lparr>balances := assets\<rparr>))
           | (None, spotAssets) \<Rightarrow>
               (let assets = rest_positions ex spotAssets
                in (None,
                    balancesObj(groupName \<mapsto> g\<lparr>balances := assets, total := sumBaseValues assets\<rparr>)))))"

text \<open>One tick of \<open>pollBalances\<close>.\<close>

definition rest_poll ::
  "exchange_conn \<Rightarrow> ccxt \<Rightarrow> string \<Rightarrow> balancesObj \<Rightarrow> error option \<times> balancesObj" where
  "rest_poll ex cc groupName balancesObj =
     rest_processBalanceData ex cc (rest_fetchCompleteBalance ex) groupName balancesObj"

section \<open>Vocabulary of the properties\<close>

text \<open>The four passes of \<open>ws.js\<close> (two revisions) that work from the connection's cache.\<close>

definition cachePasses ::
  "(exchange_conn \<Rightarrow> ccxt \<Rightarrow> balanceData \<Rightarrow> string \<Rightarrow> balancesObj \<Rightarrow> balanceCache
      \<Rightarrow> error option \<times> balancesObj \<times> balanceCache) set" where
  "cachePasses = {ws_processBalanceData, ws_compileAndUpdateBalances,
                  fund_processBalanceData, fund_compileAndUpdateBalances}"

text \<open>Those of them that read the open positions.\<close>

definition positionPasses ::
  "(exchange_conn \<Rightarrow> ccxt \<Rightarrow> balanceData \<Rightarrow> string \<Rightarrow> balancesObj \<Rightarrow> balanceCache
      \<Rightarrow> error option \<times> balancesObj \<times> balanceCache) set" where
  "positionPasses = {ws_processBalanceData, fund_processBalanceData, fund_compileAndUpdateBalances}"

text \<open>The passes of the fund-account revision.\<close>

definition fundPasses ::
  "(exchange_conn \<Rightarrow> ccxt \<Rightarrow> balanceData \<Rightarrow> string \<Rightarrow> balancesObj \<Rightarrow> balanceCache
      \<Rightarrow> error option \<times> balancesObj \<times> balanceCache) set" where
  "fundPasses = {fund_processBalanceData, fund_compileAndUpdateBalances}"

text \<open>No fetched position carries the symbol \<open>k\<close>.\<close>

definition notPositionSymbol :: "exchange_conn \<Rightarrow> string \<Rightarrow> bool" where
  "notPositionSymbol ex k =
     (case fetchPositions ex of Inl e \<Rightarrow> True | Inr ps \<Rightarrow> k \<notin> pos_symbol ` set ps)"

text \<open>
  An alternate exchange gives no price: it cannot be constructed or loaded, it lists none
  of the candidate pairs, or the ticker of the first pair it lists throws.
\<close>

definition altFails :: "ccxt \<Rightarrow> string \<Rightarrow> string \<Rightarrow> string \<Rightarrow> bool" where
  "altFails cc currency baseCur exchangeId =
     (case cc exchangeId of
        Inl e \<Rightarrow> True
      | Inr altExchange \<Rightarrow>
          (case firstMarket altExchange (possiblePairs currency baseCur) of
             None \<Rightarrow> True
           | Some pair \<Rightarrow> isl (fetchTicker altExchange pair)))"

text \<open>
  No candidate pair on the connection's own exchange, and no alternate exchange gives a
  price.
\<close>

definition noPairAnywhere :: "'a pubex_scheme \<Rightarrow> ccxt \<Rightarrow> string \<Rightarrow> string \<Rightarrow> bool" where
  "noPairAnywhere ex cc currency baseCur =
     (list_all (\<lambda>pair. \<not> markets ex pair) (possiblePairs currency baseCur)
      \<and> list_all (altFails cc currency baseCur) alternativeExchanges)"

text \<open>
  One of the calls that \<open>fetchCompleteBalance\<close> makes throws, for each of the three
  versions of the function.
\<close>

definition ws_fetchThrows :: "exchange_conn \<Rightarrow> bool" where
  "ws_fetchThrows ex =
     (if ex_id ex = ''coinbase'' then isl (fetchBalance ex NoParams) \<or> isl (fetchAccounts ex)
      else if ex_id ex = ''gateio'' then isl (fetchBalance ex (TypeParam ''swap''))
      else isl (fetchBalance ex NoParams))"

definition fund_fetchThrows :: "exchange_conn \<Rightarrow> bool" where
  "fund_fetchThrows ex =
     (if ex_id ex = ''coinbase'' then isl (fetchBalance ex NoParams) \<or> isl (fetchAccounts ex)
      else if ex_id ex = ''gateio''
      then isl (fetchBalance ex
                  (TypeParam (case defaultType ex of
                                None \<Rightarrow> ''swap''
                              | Some t \<Rightarrow> if t = [] then ''swap'' else t)))
      else isl (fetchBalance ex NoParams))"

definition rest_fetchThrows :: "exchange_conn \<Rightarrow> bool" where
  "rest_fetchThrows ex =
     (if ex_id ex = ''coinbase''
      then isl (fetchBalance ex NoParams) \<or> isl (fetchBalance ex (TypeParam ''cash''))
      else if ex_id ex = ''gateio'' then isl (fetchBalance ex (TypeParam ''swap''))
      else isl (fetchBalance ex NoParams))"

text \<open>Every group record's total is the sum over its published assets.\<close>

definition total_consistent :: "balancesObj \<Rightarrow> bool" where
  "total_consistent bo = (\<forall>name g. bo name = Some g \<longrightarrow> total g = sumBaseValues (balances g))"

section \<open>Concrete inputs\<close>

text \<open>Alternate exchanges: all unreachable, or binance listing only USD/ETH at 0.0004.\<close>

definition offline :: ccxt where
  "offline = (\<lambda>exchangeId. Inl (Error ''offline''))"

definition ethEx :: pubex where
  "ethEx = \<lparr>markets = (\<lambda>p. p = ''USD/ETH''),
            fetchTicker = (\<lambda>p. Inr \<lparr>ticker_last = Num 0.0004, ticker_close = Undefined\<rparr>)\<rparr>"

definition noMarkets :: pubex where
  "noMarkets = \<lparr>markets = (\<lambda>p. False), fetchTicker = (\<lambda>p. Inl (Error ''no market''))\<rparr>"

definition ethCcxt :: ccxt where
  "ethCcxt = (\<lambda>exchangeId. if exchangeId = ''binance'' then Inr ethEx else Inl (Error ''offline''))"

text \<open>An exchange listing only USD/ETH, with a ticker of 0.\<close>

definition zeroEx :: pubex where
  "zeroEx = \<lparr>markets = (\<lambda>p. p = ''USD/ETH''),
             fetchTicker = (\<lambda>p. Inr \<lparr>ticker_last = Num 0, ticker_close = Num 0\<rparr>)\<rparr>"

text \<open>A group valued in USD, as \<open>monitorBalances\<close> creates it.\<close>

definition usdGroup :: group where
  "usdGroup = \<lparr>exchange = ''main'', balances = [], baseCurrency = ''USD'', total = Num 0,
               spotBalance = None, earnBalance = None\<rparr>"

definition bo0 :: balancesObj where
  "bo0 = [''main'' \<mapsto> usdGroup]"

text \<open>
  Connections.  \<open>plainConn\<close> lists no market and every fetch throws; the others
  differ from it as written.
\<close>

definition plainConn :: exchange_conn where
  "plainConn = \<lparr>markets = (\<lambda>p. False), fetchTicker = (\<lambda>p. Inl (Error ''no market'')),
                ex_id = ''binance'', has_fetchPositions = False,
                defaultType = None, isFundAccount = False,
                fetchBalance = (\<lambda>p. Inl (Error ''timeout'')),
                fetchAccounts = Inl (Error ''timeout''),
                fetchPositions = Inl (Error ''timeout''),
                loadMarkets = None,
                privateEarnGetUniLends = Inl (Error ''timeout'')\<rparr>"

definition ethConn :: exchange_conn where
  "ethConn = plainConn\<lparr>markets := (\<lambda>p. p = ''USD/ETH''),
               fetchTicker := (\<lambda>p. Inr \<lparr>ticker_last = Num 0.0004, ticker_close = Undefined\<rparr>)\<rparr>"

definition btcConn :: exchange_conn where
  "btcConn = plainConn\<lparr>markets := (\<lambda>p. p = ''BTC/USD''),
               fetchTicker := (\<lambda>p. Inr \<lparr>ticker_last = Num 60000, ticker_close = Undefined\<rparr>)\<rparr>"

definition btcDownConn :: exchange_conn where
  "btcDownConn = plainConn\<lparr>markets := (\<lambda>p. p = ''BTC/USD''),
                   fetchTicker := (\<lambda>p. Inl (Error ''timeout''))\<rparr>"

text \<open>Two open positions: one below the dust threshold, one with a loss of 5.\<close>

definition dustPos :: position where
  "dustPos = \<lparr>pos_symbol = ''BTC/USDT:USDT'', contracts = Num 10, unrealizedPnl = Num (- 0.005)\<rparr>"

definition lossPos :: position where
  "lossPos = \<lparr>pos_symbol = ''ETH/USDT:USDT'', contracts = Num 10, unrealizedPnl = Num (- 5)\<rparr>"

definition futConn :: exchange_conn where
  "futConn = plainConn\<lparr>markets := (\<lambda>p. p = ''BTC/USDT:USDT'' \<or> p = ''ETH/USDT:USDT''),
               fetchTicker := (\<lambda>p. Inr \<lparr>ticker_last = Num 60000, ticker_close = Undefined\<rparr>),
               has_fetchPositions := True, defaultType := Some ''swap'',
               fetchPositions := Inr [dustPos, lossPos]\<rparr>"

text \<open>
  The same connection with the ticker of the first position throwing, and with a second
  position of the instrument of the loss.
\<close>

definition gainPos :: position where
  "gainPos = \<lparr>pos_symbol = ''ETH/USDT:USDT'', contracts = Num 3, unrealizedPnl = Num 7\<rparr>"

definition tickerDownConn :: exchange_conn where
  "tickerDownConn = futConn\<lparr>fetchTicker :=
      (\<lambda>p. if p = ''BTC/USDT:USDT'' then Inl (Error ''timeout'')
            else Inr \<lparr>ticker_last = Num 60000, ticker_close = Undefined\<rparr>)\<rparr>"

definition overwriteConn :: exchange_conn where
  "overwriteConn = futConn\<lparr>fetchPositions := Inr [lossPos, gainPos]\<rparr>"

definition dustAsset :: asset where
  "dustAsset = \<lparr>symbol = ''BTC/USDT:USDT'', amount = Num 10, baseValue = Num (- 0.005),
                type = futures\<rparr>"

definition lossAsset :: asset where
  "lossAsset = \<lparr>symbol = ''ETH/USDT:USDT'', amount = Num 10, baseValue = Num (- 5),
                type = futures\<rparr>"

definition gainAsset :: asset where
  "gainAsset = \<lparr>symbol = ''ETH/USDT:USDT'', amount = Num 3, baseValue = Num 7, type = futures\<rparr>"

text \<open>A gateio fund account, with its supplementary fetches answering and throwing.\<close>

definition fundAcct :: account where
  "fundAcct = \<lparr>acc_n = ''Gate Fund'', acc_e = ''gateio'', acc_baseCurrency = ''USD'',
               acc_defaultType = Some ''swap''\<rparr>"

definition gateClass :: "string \<Rightarrow> exchange_conn option" where
  "gateClass = (\<lambda>e. if e = ''gateio'' then Some futConn else None)"

definition fundConn :: exchange_conn where
  "fundConn = futConn\<lparr>ex_id := ''gateio'', isFundAccount := True,
                fetchBalance := (\<lambda>prm. if prm = TypeParam ''spot''
                                         then Inr (Some [(''USD'', Num 250)])
                                         else Inl (Error ''timeout'')),
                privateEarnGetUniLends :=
                  Inr [\<lparr>lend_currency = ''USDT'', lend_amount = Num 40\<rparr>]\<rparr>"

definition fundConnDown :: exchange_conn where
  "fundConnDown = fundConn\<lparr>fetchBalance := (\<lambda>prm. Inl (Error ''timeout'')),
                    privateEarnGetUniLends := Inl (Error ''timeout'')\<rparr>"

text \<open>Published assets of the examples.\<close>

definition btcAsset :: asset where
  "btcAsset = \<lparr>symbol = ''BTC'', amount = Num 0.5, baseValue = Num 30000, type = spot\<rparr>"

definition usd100 :: asset where
  "usd100 = \<lparr>symbol = ''USD'', amount = Num 100, baseValue = Num 100, type = spot\<rparr>"

definition usd50 :: asset where
  "usd50 = \<lparr>symbol = ''USD'', amount = Num 50, baseValue = Num 50, type = spot\<rparr>"

definition fundBalances :: assets where
  "fundBalances =
     [(''USD'', usd100),
      (''ETH/USDT:USDT'', \<lparr>symbol = ''ETH/USDT:USDT'', amount = Num 10,
                           baseValue = Num (- 5), type = futures\<rparr>)]"

section \<open>Properties\<close>

subsection \<open>Price inversion\<close>

lemma invertPrice_numerator:
  "n = baseCur \<or> n = ''USD'' \<or> n = ''USDT'' \<Longrightarrow> invertPrice (n @ ''/'' @ d) baseCur"
  unfolding invertPrice_def startsWith_def by auto

text \<open>
  C6.  When the first candidate pair that exists on the connection's own exchange has the
  valuation currency, USD or USDT as its numerator, the price used is one over the
  ticker's \<open>last || close\<close>, and the asset's value is the amount times that price
  (\<open>ws.js\<close>, both revisions, and \<open>rest.js\<close>).  With only USD/ETH listed at
  \<open>last = 0.0004\<close> the price of ETH in USD is 2500 and 2 ETH are worth 5000.
\<close>

theorem inverted_pair_price:
  assumes "currency \<noteq> baseCur"
    and "firstMarket ex (possiblePairs currency baseCur) = Some (n @ ''/'' @ d)"
    and "n = baseCur \<or> n = ''USD'' \<or> n = ''USDT''"
    and "fetchTicker ex (n @ ''/'' @ d) = Inr t"
  shows "lookupPrice ex cc currency baseCur
           = Some (js_div (Num 1) (js_or (ticker_last t) (ticker_close t)))
       \<and> valueEntry ex cc baseCur currency amt
           = (let price = js_div (Num 1) (js_or (ticker_last t) (ticker_close t));
                  v = js_mul amt price
              in if truthy price \<and> \<not> js_lt (js_abs v) (Num (1 / 100))
                 then Some \<lparr>symbol = currency, amount = amt, baseValue = v, type = spot\<rparr>
                 else None)
       \<and> rest_valueEntry ex cc baseCur currency amt
           = (let price = js_div (Num 1) (js_or (ticker_last t) (ticker_close t))
              in Inr (if truthy price
                      then Some \<lparr>symbol = currency, amount = amt,
                                 baseValue = js_mul amt price, type = spot\<rparr>
                      else None))"
proof -
  have inv: "invertPrice (n @ ''/'' @ d) baseCur"
    using assms(3) by (rule invertPrice_numerator)
  have lp: "lookupPrice ex cc currency baseCur
           = Some (js_div (Num 1) (js_or (ticker_last t) (ticker_close t)))"
    using assms(2,4) inv by (simp add: lookupPrice_def)
  have rlp: "rest_lookupPrice ex cc currency baseCur
           = Inr (Some (js_div (Num 1) (js_or (ticker_last t) (ticker_close t))))"
    using assms(2,4) inv by (simp add: rest_lookupPrice_def)
  show ?thesis
    using assms(1) lp rlp by (simp add: valueEntry_def rest_valueEntry_def Let_def)
qed

theorem inverted_pair_price_witness:
  "lookupPrice ethEx offline ''ETH'' ''USD'' = Some (Num 2500)
   \<and> valueEntry ethEx offline ''USD'' ''ETH'' (Num 2)
       = Some \<lparr>symbol = ''ETH'', amount = Num 2, baseValue = Num 5000, type = spot\<rparr>
   \<and> rest_valueEntry ethEx offline ''USD'' ''ETH'' (Num 2)
       = Inr (Some \<lparr>symbol = ''ETH'', amount = Num 2, baseValue = Num 5000, type = spot\<rparr>)"
proof -
  have 1: "''ETH'' \<noteq> ''USD''" by simp
  have 2: "firstMarket ethEx (possiblePairs ''ETH'' ''USD'') = Some (''USD'' @ ''/'' @ ''ETH'')"
    by (simp add: firstMarket_def possiblePairs_def ethEx_def)
  have 3: "''USD'' = ''USD'' \<or> ''USD'' = ''USD'' \<or> ''USD'' = ''USDT''" by simp
  have 4: "fetchTicker ethEx (''USD'' @ ''/'' @ ''ETH'')
             = Inr \<lparr>ticker_last = Num 0.0004, ticker_close = Undefined\<rparr>"
    by (simp add: ethEx_def)
  show ?thesis
    using inverted_pair_price [OF 1 2 3 4, of offline "Num 2"]
    by (simp add: js_or_def Let_def)
qed

text \<open>
  The fallbacks with such a pair on the first alternate exchange: \<open>ws.js\<close> inverts,
  \<open>rest.js\<close> does not.
\<close>

lemma altLoop_first_pair:
  assumes "cc x = Inr alt"
    and "firstMarket alt (possiblePairs c b) = Some (n @ ''/'' @ d)"
    and "n = b \<or> n = ''USD'' \<or> n = ''USDT''"
    and "fetchTicker alt (n @ ''/'' @ d) = Inr t"
  shows "altLoop cc c b (x # xs) = Some (js_div (Num 1) (js_or (ticker_last t) (ticker_close t)))
       \<and> rest_altLoop cc c b (x # xs) = Some (js_or (ticker_last t) (ticker_close t))"
  using assms invertPrice_numerator [OF assms(3), of d] by simp

text \<open>
  C7.  The fallback of \<open>rest.js\<close> does not apply the inversion rule: with USD/ETH at
  0.0004 as the only matching pair on the first alternate exchange it answers 0.0004 for
  the price of ETH in USD, where the fallback of \<open>ws.js\<close> answers 2500; 2 ETH are
  then published at 0.0008 instead of 5000.
\<close>

theorem rest_alternative_price_not_inverted:
  "rest_fetchPriceFromAlternativeExchange ethCcxt ''ETH'' ''USD'' = Some (Num 0.0004)
   \<and> fetchPriceFromAlternativeExchange ethCcxt ''ETH'' ''USD'' = Some (Num 2500)
   \<and> rest_valueEntry noMarkets ethCcxt ''USD'' ''ETH'' (Num 2)
       = Inr (Some \<lparr>symbol = ''ETH'', amount = Num 2, baseValue = Num 0.0008, type = spot\<rparr>)
   \<and> valueEntry noMarkets ethCcxt ''USD'' ''ETH'' (Num 2)
       = Some \<lparr>symbol = ''ETH'', amount = Num 2, baseValue = Num 5000, type = spot\<rparr>"
  by (simp add: rest_fetchPriceFromAlternativeExchange_def fetchPriceFromAlternativeExchange_def
      alternativeExchanges_def ethCcxt_def ethEx_def noMarkets_def firstMarket_def possiblePairs_def
      invertPrice_def startsWith_def js_or_def rest_valueEntry_def rest_lookupPrice_def
      valueEntry_def lookupPrice_def)

subsection \<open>Objects as association lists\<close>

lemma set_update_subset: "set (AList.update k v al) \<subseteq> insert (k, v) (set al)"
  by (induction al) auto

lemma set_delete_subset: "set (AList.delete k al) \<subseteq> set al"
  by (auto simp: AList.delete_eq)

lemma key_in_set_iff: "k \<in> fst ` set al \<longleftrightarrow> map_of al k \<noteq> None"
  by (simp add: map_of_eq_None_iff)

subsection \<open>The cache\<close>

lemma updateCache_truthy:
  "\<forall>v \<in> snd ` set cache. truthy v \<Longrightarrow> \<forall>v \<in> snd ` set (updateCache cache snap). truthy v"
proof (induction snap arbitrary: cache)
  case Nil
  then show ?case by simp
next
  case (Cons x snap)
  obtain c a where x: "x = (c, a)" by (cases x)
  have up: "truthy a \<Longrightarrow> \<forall>v \<in> snd ` set (AList.update c a cache). truthy v"
    using Cons.prems set_update_subset [of c a cache] by fastforce
  have del: "\<forall>v \<in> snd ` set (AList.delete c cache). truthy v"
    using Cons.prems set_delete_subset [of c cache] by fastforce
  show ?case
    using Cons.IH [OF up] Cons.IH [OF del] Cons.IH [OF Cons.prems] by (simp add: x)
qed

lemma updateCache_distinct:
  "distinct (map fst cache) \<Longrightarrow> distinct (map fst (updateCache cache snap))"
proof (induction snap arbitrary: cache)
  case Nil
  then show ?case by simp
next
  case (Cons x snap)
  obtain c a where x: "x = (c, a)" by (cases x)
  show ?case
    using Cons.IH [OF distinct_update [OF Cons.prems]] Cons.IH [OF distinct_delete [OF Cons.prems]]
      Cons.IH [OF Cons.prems] by (simp add: x)
qed

lemma updateCache_step:
  "updateCache cache ((c, a) # snap) = updateCache (AList.update c a cache) snap
      \<or> updateCache cache ((c, a) # snap) = updateCache (AList.delete c cache) snap
      \<or> updateCache cache ((c, a) # snap) = updateCache cache snap"
  by (cases "truthy a \<and> js_lt (Num (1 / 1000000)) (js_abs a)";
      cases "case map_of cache c of None \<Rightarrow> False | Some v \<Rightarrow> truthy v") simp_all

lemma updateCache_keys: "fst ` set (updateCache cache snap) \<subseteq> fst ` set cache \<union> fst ` set snap"
proof (induction snap arbitrary: cache)
  case Nil
  then show ?case by simp
next
  case (Cons x snap)
  obtain c a where x: "x = (c, a)" by (cases x)
  have d: "fst ` set (AList.delete c cache) \<subseteq> fst ` set cache"
    using set_delete_subset [of c cache] by auto
  have u: "fst ` set (AList.update c a cache) \<subseteq> insert c (fst ` set cache)"
    by (simp add: dom_update)
  have goal: "fst ` set cache \<union> fst ` set (x # snap) = insert c (fst ` set cache \<union> fst ` set snap)"
    by (simp add: x)
  consider (upd) "updateCache cache (x # snap) = updateCache (AList.update c a cache) snap"
    | (del) "updateCache cache (x # snap) = updateCache (AList.delete c cache) snap"
    | (keep) "updateCache cache (x # snap) = updateCache cache snap"
    using updateCache_step [of cache c a snap] x by blast
  then show ?case
  proof cases
    case upd
    have "fst ` set (updateCache (AList.update c a cache) snap)
            \<subseteq> fst ` set (AList.update c a cache) \<union> fst ` set snap"
      by (rule Cons.IH)
    then show ?thesis unfolding upd goal using u by blast
  next
    case del
    have "fst ` set (updateCache (AList.delete c cache) snap)
            \<subseteq> fst ` set (AList.delete c cache) \<union> fst ` set snap"
      by (rule Cons.IH)
    then show ?thesis unfolding del goal using d by blast
  next
    case keep
    have "fst ` set (updateCache cache snap) \<subseteq> fst ` set cache \<union> fst ` set snap"
      by (rule Cons.IH)
    then show ?thesis unfolding keep goal by blast
  qed
qed

text \<open>A currency reported at or below the threshold leaves the cache.\<close>

lemma updateCache_removes:
  assumes "distinct (map fst snap)" and "(c, a) \<in> set snap"
    and "\<not> (truthy a \<and> js_lt (Num (1 / 1000000)) (js_abs a))"
    and "\<forall>v \<in> snd ` set cache. truthy v"
  shows "c \<notin> fst ` set (updateCache cache snap)"
  using assms
proof (induction snap arbitrary: cache)
  case Nil
  then show ?case by simp
next
  case (Cons x snap)
  obtain k b where x: "x = (k, b)" by (cases x)
  let ?step = "updateCache cache [x]"
  have step_truthy: "\<forall>v \<in> snd ` set ?step. truthy v"
    using updateCache_truthy [OF Cons.prems(4)] by blast
  have unfold: "updateCache cache (x # snap) = updateCache ?step snap"
    by (simp add: x)
  show ?case
  proof (cases "(c, a) = x")
    case True
    then have kc: "k = c" "b = a" using x by auto
    have notin_snap: "c \<notin> fst ` set snap"
      using Cons.prems(1) kc x by auto
    have "c \<notin> fst ` set ?step"
    proof (cases "map_of cache c")
      case None
      then show ?thesis
        using Cons.prems(3) kc x by (auto simp: key_in_set_iff)
    next
      case (Some v)
      then have "(c, v) \<in> set cache" by (rule map_of_SomeD)
      then have "truthy v" using Cons.prems(4) by force
      then show ?thesis
        using Cons.prems(3) kc x Some by (auto simp: delete_notin_dom)
    qed
    then show ?thesis
      using updateCache_keys [of ?step snap] notin_snap unfold by auto
  next
    case False
    then have "(c, a) \<in> set snap" using Cons.prems(2) by auto
    moreover have "distinct (map fst snap)" using Cons.prems(1) by simp
    ultimately show ?thesis
      using Cons.IH [of ?step] Cons.prems(3) step_truthy unfold by simp
  qed
qed

subsection \<open>The loop over the cache\<close>

lemma valueEntry_Some:
  assumes "valueEntry ex cc b k amt = Some a"
  shows "symbol a = k \<and> amount a = amt \<and> type a = spot
         \<and> \<not> js_lt (js_abs (baseValue a)) (Num (1 / 100))"
  using assms by (auto simp: valueEntry_def split: if_splits option.splits)

lemma truthy_mul: "truthy a \<Longrightarrow> truthy b \<Longrightarrow> truthy (js_mul a b)"
  by (cases a; cases b) (auto simp: inf_of_sign_def)

lemma not_dust: "truthy v \<Longrightarrow> \<not> js_lt (js_abs v) (Num (1 / 100)) \<Longrightarrow> js_le (Num (1 / 100)) (js_abs v)"
  by (cases v) auto

lemma valueEntry_value:
  assumes "valueEntry ex cc b k amt = Some a" and "truthy amt"
  shows "js_le (Num (1 / 100)) (js_abs (baseValue a))"
proof -
  have "truthy (baseValue a)"
    using assms by (auto simp: valueEntry_def truthy_mul split: if_splits option.splits)
  then show ?thesis
    using valueEntry_Some [OF assms(1)] not_dust by blast
qed

lemma processCache_set:
  "(k, a) \<in> set (processCache ex cc b cache acc) \<Longrightarrow>
     (k, a) \<in> set acc \<or> (\<exists>amt. (k, amt) \<in> set cache \<and> valueEntry ex cc b k amt = Some a)"
proof (induction cache arbitrary: acc)
  case Nil
  then show ?case by simp
next
  case (Cons x cache)
  obtain c amt where x: "x = (c, amt)" by (cases x)
  show ?case
  proof (cases "valueEntry ex cc b c amt")
    case None
    then show ?thesis using Cons.IH [of acc] Cons.prems x by auto
  next
    case (Some v)
    then have "(k, a) \<in> set (processCache ex cc b cache (AList.update c v acc))"
      using Cons.prems x by simp
    from Cons.IH [OF this] show ?thesis
      using set_update_subset [of c v acc] Some x by auto
  qed
qed

lemma map_of_processCache_acc:
  "distinct (map fst cache) \<Longrightarrow>
   map_of (processCache ex cc b cache acc) k =
     (case map_of cache k of
        None \<Rightarrow> map_of acc k
      | Some amt \<Rightarrow> (case valueEntry ex cc b k amt of None \<Rightarrow> map_of acc k | Some a \<Rightarrow> Some a))"
proof (induction cache arbitrary: acc)
  case Nil
  then show ?case by simp
next
  case (Cons x cache)
  obtain c amt where x: "x = (c, amt)" by (cases x)
  have d: "distinct (map fst cache)" and notin: "c \<notin> fst ` set cache"
    using Cons.prems x by auto
  have none: "map_of cache c = None"
    using notin by (simp add: map_of_eq_None_iff)
  show ?case
    using Cons.IH [OF d] none
    by (auto simp: x update_conv' split: option.splits)
qed

lemma map_of_processCache:
  "distinct (map fst cache) \<Longrightarrow>
   map_of (processCache ex cc b cache []) k =
     (case map_of cache k of None \<Rightarrow> None | Some amt \<Rightarrow> valueEntry ex cc b k amt)"
  by (simp add: map_of_processCache_acc split: option.splits)

subsection \<open>The loop over the positions\<close>

lemma positionsLoop_set:
  "(k, a) \<in> set (positionsLoop ex ps acc) \<Longrightarrow>
     (k, a) \<in> set acc \<or>
     (\<exists>p \<in> set ps. k = pos_symbol p \<and> contracts p \<noteq> Num 0 \<and> markets ex k
        \<and> \<not> js_lt (js_abs (js_or (unrealizedPnl p) (Num 0))) (Num (1 / 100))
        \<and> a = \<lparr>symbol = k, amount = contracts p,
                 baseValue = js_or (unrealizedPnl p) (Num 0), type = futures\<rparr>)"
proof (induction ps arbitrary: acc)
  case Nil
  then show ?case by simp
next
  case (Cons p ps)
  show ?case
  proof (cases "contracts p \<noteq> Num 0 \<and> markets ex (pos_symbol p)")
    case False
    then have "(k, a) \<in> set (positionsLoop ex ps acc)"
      using Cons.prems by (auto split: if_splits)
    from Cons.IH [OF this] show ?thesis by auto
  next
    case True
    show ?thesis
    proof (cases "fetchTicker ex (pos_symbol p)")
      case (Inl e)
      then show ?thesis using Cons.prems True by simp
    next
      case (Inr t)
      show ?thesis
      proof (cases "js_lt (js_abs (js_or (unrealizedPnl p) (Num 0))) (Num (1 / 100))")
        case dust: True
        then have "(k, a) \<in> set (positionsLoop ex ps acc)"
          using Cons.prems True Inr by (simp add: Let_def)
        from Cons.IH [OF this] show ?thesis by auto
      next
        case keep: False
        let ?a = "\<lparr>symbol = pos_symbol p, amount = contracts p,
                    baseValue = js_or (unrealizedPnl p) (Num 0), type = futures\<rparr>"
        have "(k, a) \<in> set (positionsLoop ex ps (AList.update (pos_symbol p) ?a acc))"
          using Cons.prems True Inr keep by (simp add: Let_def)
        from Cons.IH [OF this] show ?thesis
          using set_update_subset [of "pos_symbol p" ?a acc] True keep by auto
      qed
    qed
  qed
qed

lemma positionsLoop_frame:
  "k \<notin> pos_symbol ` set ps \<Longrightarrow> map_of (positionsLoop ex ps acc) k = map_of acc k"
proof (induction ps arbitrary: acc)
  case Nil
  then show ?case by simp
next
  case (Cons p ps)
  then have k: "k \<noteq> pos_symbol p" and rest: "k \<notin> pos_symbol ` set ps" by auto
  show ?case
    using Cons.IH [OF rest] k
    by (auto simp: Let_def update_conv' split: sum.splits)
qed

lemma js_or_zero_value: "\<not> js_lt (js_abs (js_or u (Num 0))) (Num (1 / 100))
   \<Longrightarrow> js_le (Num (1 / 100)) (js_abs (js_or u (Num 0)))"
  by (cases u) (auto simp: js_or_def)


subsection \<open>The positions blocks\<close>

lemma positionsLoop_futures:
  assumes "(k, a) \<in> set (positionsLoop ex ps acc)"
  shows "(k, a) \<in> set acc \<or> (type a = futures \<and> js_le (Num (1 / 100)) (js_abs (baseValue a)))"
proof -
  from positionsLoop_set [OF assms] show ?thesis
  proof
    assume "(k, a) \<in> set acc"
    then show ?thesis ..
  next
    assume "\<exists>p \<in> set ps. k = pos_symbol p \<and> contracts p \<noteq> Num 0 \<and> markets ex k
        \<and> \<not> js_lt (js_abs (js_or (unrealizedPnl p) (Num 0))) (Num (1 / 100))
        \<and> a = \<lparr>symbol = k, amount = contracts p,
                 baseValue = js_or (unrealizedPnl p) (Num 0), type = futures\<rparr>"
    then obtain p :: position where nd: "\<not> js_lt (js_abs (js_or (unrealizedPnl p) (Num 0))) (Num (1 / 100))"
      and a: "a = \<lparr>symbol = k, amount = contracts p,
                 baseValue = js_or (unrealizedPnl p) (Num 0), type = futures\<rparr>"
      by blast
    show ?thesis using js_or_zero_value [OF nd] a by simp
  qed
qed

lemma ws_positions_set:
  assumes "(k, a) \<in> set (ws_positions ex acc)"
  shows "(k, a) \<in> set acc \<or> (type a = futures \<and> js_le (Num (1 / 100)) (js_abs (baseValue a)))"
proof (cases "fetchPositions ex")
  case (Inl e)
  then show ?thesis using assms by (simp add: ws_positions_def split: if_splits)
next
  case (Inr ps)
  show ?thesis
  proof (cases "has_fetchPositions ex")
    case True
    then have "(k, a) \<in> set (positionsLoop ex ps acc)"
      using assms Inr by (simp add: ws_positions_def)
    then show ?thesis by (rule positionsLoop_futures)
  next
    case False
    then show ?thesis using assms by (simp add: ws_positions_def)
  qed
qed

lemma fund_positions_set:
  assumes "(k, a) \<in> set (fund_positions ex acc)"
  shows "(k, a) \<in> set acc \<or> (type a = futures \<and> js_le (Num (1 / 100)) (js_abs (baseValue a)))"
proof (cases "fetchPositions ex")
  case (Inl e)
  then show ?thesis using assms by (simp add: fund_positions_def split: if_splits)
next
  case (Inr ps)
  show ?thesis
  proof (cases "has_fetchPositions ex \<and> defaultType ex = Some ''swap''")
    case True
    then have "(k, a) \<in> set (positionsLoop ex ps acc)"
      using assms Inr by (simp add: fund_positions_def)
    then show ?thesis by (rule positionsLoop_futures)
  next
    case False
    then show ?thesis using assms by (auto simp: fund_positions_def)
  qed
qed

lemma ws_positions_frame:
  "notPositionSymbol ex k \<Longrightarrow> map_of (ws_positions ex acc) k = map_of acc k"
  by (auto simp: ws_positions_def notPositionSymbol_def positionsLoop_frame split: sum.splits)

lemma fund_positions_frame:
  "notPositionSymbol ex k \<Longrightarrow> map_of (fund_positions ex acc) k = map_of acc k"
  by (auto simp: fund_positions_def notPositionSymbol_def positionsLoop_frame split: sum.splits)

subsection \<open>The passes over the cache\<close>

lemma fundAccountStep_primary:
  "balances (fundAccountStep ex g) = balances g \<and> total (fundAccountStep ex g) = total g
   \<and> baseCurrency (fundAccountStep ex g) = baseCurrency g"
  by (simp add: fundAccountStep_def Let_def)

lemma cachePass_Some:
  assumes "pass \<in> cachePasses" and "pass ex cc bd gn bo cache = (e, bo', cache')"
    and "bo' gn = Some g'"
  shows "\<exists>g. bo gn = Some g \<and> e = None \<and> cache' = updateCache cache (totalOf bd)
           \<and> baseCurrency g' = baseCurrency g
           \<and> total g' = sumBaseValues (balances g')
           \<and> (balances g' = processCache ex cc (baseCurrency g) cache' []
              \<or> balances g' = ws_positions ex (processCache ex cc (baseCurrency g) cache' [])
              \<or> balances g' = fund_positions ex (processCache ex cc (baseCurrency g) cache' []))"
proof -
  consider (a) "pass = ws_processBalanceData" | (b) "pass = ws_compileAndUpdateBalances"
    | (c) "pass = fund_processBalanceData" | (d) "pass = fund_compileAndUpdateBalances"
    using assms(1) by (auto simp: cachePasses_def)
  then show ?thesis
  proof cases
    case a
    then show ?thesis using assms(2,3)
      by (cases "bo gn") (auto simp: ws_processBalanceData_def Let_def)
  next
    case b
    then show ?thesis using assms(2,3)
      by (cases "bo gn") (auto simp: ws_compileAndUpdateBalances_def Let_def)
  next
    case c
    then show ?thesis using assms(2,3)
      by (cases "bo gn") (auto simp: fund_processBalanceData_def Let_def fundAccountStep_primary)
  next
    case d
    then show ?thesis using assms(2,3)
      by (cases "bo gn") (auto simp: fund_compileAndUpdateBalances_def Let_def fundAccountStep_primary)
  qed
qed

lemma cachePass_defined:
  assumes "pass \<in> cachePasses" and "bo gn = Some g"
  shows "\<exists>bo' g'. pass ex cc bd gn bo cache = (None, bo', updateCache cache (totalOf bd))
            \<and> bo' gn = Some g'"
proof -
  consider (a) "pass = ws_processBalanceData" | (b) "pass = ws_compileAndUpdateBalances"
    | (c) "pass = fund_processBalanceData" | (d) "pass = fund_compileAndUpdateBalances"
    using assms(1) by (auto simp: cachePasses_def)
  then show ?thesis
  proof cases
    case a
    then show ?thesis using assms(2) by (simp add: ws_processBalanceData_def Let_def)
  next
    case b
    then show ?thesis using assms(2) by (simp add: ws_compileAndUpdateBalances_def Let_def)
  next
    case c
    then show ?thesis using assms(2) by (simp add: fund_processBalanceData_def Let_def)
  next
    case d
    then show ?thesis using assms(2) by (simp add: fund_compileAndUpdateBalances_def Let_def)
  qed
qed

lemma cachePass_set:
  assumes "pass \<in> cachePasses" and "pass ex cc bd gn bo cache = (e, bo', cache')"
    and "bo' gn = Some g'" and "(k, a) \<in> set (balances g')"
  shows "(\<exists>amt. (k, amt) \<in> set cache' \<and> valueEntry ex cc (baseCurrency g') k amt = Some a)
         \<or> (type a = futures \<and> js_le (Num (1 / 100)) (js_abs (baseValue a)))"
proof -
  obtain g :: group where g: "baseCurrency g' = baseCurrency g"
    and b: "balances g' = processCache ex cc (baseCurrency g) cache' []
              \<or> balances g' = ws_positions ex (processCache ex cc (baseCurrency g) cache' [])
              \<or> balances g' = fund_positions ex (processCache ex cc (baseCurrency g) cache' [])"
    using cachePass_Some [OF assms(1,2,3)] by blast
  let ?spot = "processCache ex cc (baseCurrency g) cache' []"
  have "(k, a) \<in> set ?spot \<or> (type a = futures \<and> js_le (Num (1 / 100)) (js_abs (baseValue a)))"
    using b assms(4) ws_positions_set [of k a ex ?spot] fund_positions_set [of k a ex ?spot]
    by auto
  then show ?thesis
    using processCache_set [of k a ex cc "baseCurrency g" cache' "[]"] g by auto
qed

lemma cachePass_frame:
  assumes "pass \<in> cachePasses" and "pass ex cc bd gn bo cache = (e, bo', cache')"
    and "bo' gn = Some g'" and "notPositionSymbol ex k" and "distinct (map fst cache)"
  shows "map_of (balances g') k =
           (case map_of cache' k of
              None \<Rightarrow> None
            | Some amt \<Rightarrow> valueEntry ex cc (baseCurrency g') k amt)"
proof -
  obtain g :: group where g: "baseCurrency g' = baseCurrency g"
    and c: "cache' = updateCache cache (totalOf bd)"
    and b: "balances g' = processCache ex cc (baseCurrency g) cache' []
              \<or> balances g' = ws_positions ex (processCache ex cc (baseCurrency g) cache' [])
              \<or> balances g' = fund_positions ex (processCache ex cc (baseCurrency g) cache' [])"
    using cachePass_Some [OF assms(1,2,3)] by blast
  let ?spot = "processCache ex cc (baseCurrency g) cache' []"
  have d: "distinct (map fst cache')"
    unfolding c using assms(5) by (rule updateCache_distinct)
  have "map_of (balances g') k = map_of ?spot k"
    using b ws_positions_frame [OF assms(4)] fund_positions_frame [OF assms(4)] by auto
  then show ?thesis
    unfolding g using map_of_processCache [OF d, of ex cc "baseCurrency g" k] by simp
qed

subsection \<open>Evaluation of concrete passes\<close>

lemmas eval_defs =
  usdGroup_def bo0_def plainConn_def ethConn_def offline_def
  totalOf_def Let_def sumBaseValues_def js_or_def js_get_def
  valueEntry_def lookupPrice_def firstMarket_def possiblePairs_def invertPrice_def startsWith_def
  fetchPriceFromAlternativeExchange_def alternativeExchanges_def
  ws_positions_def fund_positions_def fundAccountStep_def

subsection \<open>Dust filter\<close>

text \<open>
  C2 (as amended).  After a pass of \<open>ws.js\<close> (\<open>processBalanceData\<close> or
  \<open>compileAndUpdateBalances\<close>, either revision) over a cache of non-zero amounts,
  every asset in the group's published balances, spot or futures, has
  \<open>|baseValue| >= 0.01\<close>.
\<close>

theorem dust_filter_cache_passes:
  assumes "pass \<in> cachePasses" and "\<forall>v \<in> snd ` set cache. truthy v"
    and "pass ex cc bd gn bo cache = (e, bo', cache')"
    and "bo' gn = Some g'" and "(k, a) \<in> set (balances g')"
  shows "js_le (Num (1 / 100)) (js_abs (baseValue a))"
proof -
  have c: "cache' = updateCache cache (totalOf bd)"
    using cachePass_Some [OF assms(1,3,4)] by blast
  have t: "\<forall>v \<in> snd ` set cache'. truthy v"
    unfolding c using assms(2) by (rule updateCache_truthy)
  from cachePass_set [OF assms(1,3,4,5)] show ?thesis
  proof
    assume "\<exists>amt. (k, amt) \<in> set cache' \<and> valueEntry ex cc (baseCurrency g') k amt = Some a"
    then obtain amt where m: "(k, amt) \<in> set cache'"
      and v: "valueEntry ex cc (baseCurrency g') k amt = Some a" by blast
    have "truthy amt" using t m by force
    with v show ?thesis by (rule valueEntry_value)
  next
    assume "type a = futures \<and> js_le (Num (1 / 100)) (js_abs (baseValue a))"
    then show ?thesis ..
  qed
qed

theorem dust_filter_cache_passes_witness:
  "ws_processBalanceData ethConn offline (Some [(''ETH'', Num 2), (''USD'', Num 0.001)]) ''main'' bo0
       [(''ETH'', Num 1)]
     = (None,
        bo0(''main'' \<mapsto> usdGroup\<lparr>balances :=
              [(''ETH'', \<lparr>symbol = ''ETH'', amount = Num 2, baseValue = Num 5000, type = spot\<rparr>)],
              total := Num 5000\<rparr>),
        [(''ETH'', Num 2), (''USD'', Num 0.001)])
   \<and> js_le (Num (1 / 100))
        (js_abs (baseValue \<lparr>symbol = ''ETH'', amount = Num 2, baseValue = Num 5000, type = spot\<rparr>))"
proof -
  let ?a = "\<lparr>symbol = ''ETH'', amount = Num 2, baseValue = Num 5000, type = spot\<rparr>"
  let ?g = "usdGroup\<lparr>balances := [(''ETH'', ?a)], total := Num 5000\<rparr>"
  have 1: "ws_processBalanceData \<in> cachePasses" by (simp add: cachePasses_def)
  have 2: "\<forall>v \<in> snd ` set [(''ETH'', Num 1)]. truthy v" by simp
  have 3: "ws_processBalanceData ethConn offline (Some [(''ETH'', Num 2), (''USD'', Num 0.001)])
             ''main'' bo0 [(''ETH'', Num 1)]
           = (None, bo0(''main'' \<mapsto> ?g), [(''ETH'', Num 2), (''USD'', Num 0.001)])"
    by (simp add: ws_processBalanceData_def eval_defs)
  have 4: "(bo0(''main'' \<mapsto> ?g)) ''main'' = Some ?g" by simp
  have 5: "(''ETH'', ?a) \<in> set (balances ?g)" by simp
  from dust_filter_cache_passes [OF 1 2 3 4 5] 3 show ?thesis by blast
qed

text \<open>
  C2 as stated fails for \<open>rest.js\<close>, which has no dust rule: a balance of 0.001 USD
  in a USD group is published with \<open>baseValue = 0.001\<close>.
\<close>

theorem rest_publishes_dust:
  "rest_processBalanceData plainConn offline (Some [(''USD'', Num 0.001)]) ''main'' bo0
     = (None,
        bo0(''main'' \<mapsto> usdGroup\<lparr>balances :=
              [(''USD'', \<lparr>symbol = ''USD'', amount = Num 0.001, baseValue = Num 0.001, type = spot\<rparr>)],
              total := Num 0.001\<rparr>))
   \<and> js_lt (js_abs (Num 0.001)) (Num 0.01)
   \<and> \<not> js_le (Num 0.01) (js_abs (Num 0.001))"
  by (simp add: rest_processBalanceData_def rest_positions_def usdcFirst_def rest_valueEntry_def
      eval_defs)

subsection \<open>Cache zeroing\<close>

text \<open>
  C3 (as amended).  When a snapshot reports a currency with an amount that is zero,
  undefined or at most \<open>1e-6\<close> in absolute value, a pass of \<open>ws.js\<close> removes
  the currency from the connection's cache, and no spot asset of that currency is
  published: an entry under that key, if any, is a futures position's.
\<close>

theorem cache_zeroing:
  assumes "pass \<in> cachePasses"
    and "distinct (map fst snap)" and "(c, a) \<in> set snap"
    and "\<not> (truthy a \<and> js_lt (Num (1 / 1000000)) (js_abs a))"
    and "\<forall>v \<in> snd ` set cache. truthy v"
    and "pass ex cc (Some snap) gn bo cache = (e, bo', cache')"
    and "bo' gn = Some g'"
  shows "c \<notin> fst ` set cache' \<and> (\<forall>x. (c, x) \<in> set (balances g') \<longrightarrow> type x = futures)"
proof -
  have c: "cache' = updateCache cache snap"
    using cachePass_Some [OF assms(1,6,7)] by (auto simp: totalOf_def)
  have gone: "c \<notin> fst ` set cache'"
    unfolding c using assms(2,3,4,5) by (rule updateCache_removes)
  have "type x = futures" if "(c, x) \<in> set (balances g')" for x
    using cachePass_set [OF assms(1,6,7) that] gone by force
  with gone show ?thesis by blast
qed

theorem cache_zeroing_witness:
  "ws_processBalanceData btcConn offline (Some [(''BTC'', Num 0)]) ''main''
       (bo0(''main'' \<mapsto> usdGroup\<lparr>balances := [(''BTC'', btcAsset)], total := Num 30000\<rparr>))
       [(''BTC'', Num 0.5)]
     = (None, bo0(''main'' \<mapsto> usdGroup\<lparr>balances := [], total := Num 0\<rparr>), [])
   \<and> ''BTC'' \<notin> fst ` set ([] :: balanceCache)"
proof -
  let ?bo = "bo0(''main'' \<mapsto> usdGroup\<lparr>balances := [(''BTC'', btcAsset)], total := Num 30000\<rparr>)"
  let ?g = "usdGroup\<lparr>balances := [], total := Num 0\<rparr>"
  have 1: "ws_processBalanceData \<in> cachePasses" by (simp add: cachePasses_def)
  have 2: "distinct (map fst [(''BTC'', Num 0)])" by simp
  have 3: "(''BTC'', Num 0) \<in> set [(''BTC'', Num 0)]" by simp
  have 4: "\<not> (truthy (Num 0) \<and> js_lt (Num (1 / 1000000)) (js_abs (Num 0)))" by simp
  have 5: "\<forall>v \<in> snd ` set [(''BTC'', Num 0.5)]. truthy v" by simp
  have 6: "ws_processBalanceData btcConn offline (Some [(''BTC'', Num 0)]) ''main'' ?bo
             [(''BTC'', Num 0.5)] = (None, bo0(''main'' \<mapsto> ?g), [])"
    by (simp add: ws_processBalanceData_def btcConn_def eval_defs)
  have 7: "(bo0(''main'' \<mapsto> ?g)) ''main'' = Some ?g" by simp
  from cache_zeroing [OF 1 2 3 4 5 6 7] 6 show ?thesis by blast
qed

text \<open>
  C3 as stated fails: the cache is only touched for the currencies a snapshot lists.
  After \<open>{BTC: 0.5}\<close>, the empty snapshot \<open>{}\<close> leaves BTC cached and published.
\<close>

theorem absent_currency_stays_cached:
  "(case ws_processBalanceData btcConn offline (Some [(''BTC'', Num 0.5)]) ''main'' bo0 [] of
      (e1, bo1, cache1) \<Rightarrow>
        (case ws_processBalanceData btcConn offline (Some []) ''main'' bo1 cache1 of
           (e2, bo2, cache2) \<Rightarrow>
             e2 = None \<and> cache2 = [(''BTC'', Num 0.5)]
             \<and> map_option balances (bo2 ''main'') = Some [(''BTC'', btcAsset)]))
   \<and> (case ws_compileAndUpdateBalances btcConn offline (Some [(''BTC'', Num 0.5)]) ''main'' bo0 [] of
      (e1, bo1, cache1) \<Rightarrow>
        (case ws_compileAndUpdateBalances btcConn offline (Some []) ''main'' bo1 cache1 of
           (e2, bo2, cache2) \<Rightarrow>
             e2 = None \<and> cache2 = [(''BTC'', Num 0.5)]
             \<and> map_option balances (bo2 ''main'') = Some [(''BTC'', btcAsset)]))"
  by (simp add: ws_processBalanceData_def ws_compileAndUpdateBalances_def btcConn_def btcAsset_def
      eval_defs)

subsection \<open>Unresolved prices\<close>

lemma firstMarket_None: "list_all (\<lambda>pair. \<not> markets ex pair) pairs \<Longrightarrow> firstMarket ex pairs = None"
  by (simp add: firstMarket_def find_None_iff list_all_iff)

lemma altLoop_fails:
  "list_all (altFails cc c b) xs \<Longrightarrow> altLoop cc c b xs = None \<and> rest_altLoop cc c b xs = None"
proof (induction xs)
  case Nil
  then show ?case by simp
next
  case (Cons x xs)
  then have f: "altFails cc c b x" and r: "list_all (altFails cc c b) xs" by simp_all
  show ?case
    using Cons.IH [OF r] f
    by (auto simp: altFails_def split: sum.splits option.splits)
qed

lemma noPair_lookupPrice:
  assumes "noPairAnywhere ex cc c b"
  shows "lookupPrice ex cc c b = None \<and> rest_lookupPrice ex cc c b = Inr None"
proof -
  have m: "firstMarket ex (possiblePairs c b) = None"
    using assms by (simp add: noPairAnywhere_def firstMarket_None)
  have a: "altLoop cc c b alternativeExchanges = None \<and> rest_altLoop cc c b alternativeExchanges = None"
    using assms by (simp add: noPairAnywhere_def altLoop_fails)
  show ?thesis
    using m a
    by (simp add: lookupPrice_def rest_lookupPrice_def fetchPriceFromAlternativeExchange_def
        rest_fetchPriceFromAlternativeExchange_def)
qed

lemma valueEntry_unresolved:
  assumes "c \<noteq> b"
    and "noPairAnywhere ex cc c b \<or> (\<exists>p. lookupPrice ex cc c b = Some p \<and> \<not> truthy p)"
  shows "valueEntry ex cc b c amt = None"
  using assms noPair_lookupPrice [of ex cc c b]
  by (auto simp: valueEntry_def)

lemma rest_valueEntry_unresolved:
  assumes "c \<noteq> b"
    and "noPairAnywhere ex cc c b \<or> (\<exists>p. rest_lookupPrice ex cc c b = Inr (Some p) \<and> \<not> truthy p)"
  shows "rest_valueEntry ex cc b c amt = Inr None"
  using assms noPair_lookupPrice [of ex cc c b]
  by (auto simp: rest_valueEntry_def)

subsection \<open>The pass of \<open>rest.js\<close>\<close>

lemma rest_spotLoop_set:
  "(k, a) \<in> set (snd (rest_spotLoop ex cc b snap acc)) \<Longrightarrow>
     (k, a) \<in> set acc \<or> (\<exists>amt. (k, amt) \<in> set snap \<and> rest_valueEntry ex cc b k amt = Inr (Some a))"
proof (induction snap arbitrary: acc)
  case Nil
  then show ?case by simp
next
  case (Cons x snap)
  obtain c amt where x: "x = (c, amt)" by (cases x)
  show ?case
  proof (cases "truthy amt \<and> js_lt (Num (1 / 100000000)) (js_abs amt)")
    case False
    then have "(k, a) \<in> set (snd (rest_spotLoop ex cc b snap acc))"
      using Cons.prems x by auto
    from Cons.IH [OF this] show ?thesis by auto
  next
    case True
    show ?thesis
    proof (cases "rest_valueEntry ex cc b c amt")
      case (Inl e)
      then show ?thesis using Cons.prems True x by simp
    next
      case (Inr r)
      show ?thesis
      proof (cases r)
        case None
        then have "(k, a) \<in> set (snd (rest_spotLoop ex cc b snap acc))"
          using Cons.prems True x Inr by simp
        from Cons.IH [OF this] show ?thesis by auto
      next
        case (Some v)
        then have "(k, a) \<in> set (snd (rest_spotLoop ex cc b snap (AList.update c v acc)))"
          using Cons.prems True x Inr by simp
        from Cons.IH [OF this] show ?thesis
          using set_update_subset [of c v acc] Some Inr x by auto
      qed
    qed
  qed
qed

lemma rest_positionsLoop_set:
  "(k, a) \<in> set (rest_positionsLoop ex ps acc) \<Longrightarrow> (k, a) \<in> set acc \<or> type a = futures"
proof (induction ps arbitrary: acc)
  case Nil
  then show ?case by simp
next
  case (Cons p ps)
  show ?case
  proof (cases "contracts p \<noteq> Num 0")
    case False
    then have "(k, a) \<in> set (rest_positionsLoop ex ps acc)"
      using Cons.prems by simp
    from Cons.IH [OF this] show ?thesis .
  next
    case True
    show ?thesis
    proof (cases "fetchTicker ex (pos_symbol p)")
      case (Inl e)
      then show ?thesis using Cons.prems True by simp
    next
      case (Inr t)
      let ?a = "\<lparr>symbol = pos_symbol p, amount = contracts p,
                  baseValue = js_or (unrealizedPnl p) (Num 0), type = futures\<rparr>"
      have "(k, a) \<in> set (rest_positionsLoop ex ps (AList.update (pos_symbol p) ?a acc))"
        using Cons.prems True Inr by simp
      from Cons.IH [OF this] show ?thesis
        using set_update_subset [of "pos_symbol p" ?a acc] by auto
    qed
  qed
qed

lemma rest_positions_set:
  "(k, a) \<in> set (rest_positions ex acc) \<Longrightarrow> (k, a) \<in> set acc \<or> type a = futures"
  using rest_positionsLoop_set [of k a ex _ acc]
  by (cases "fetchPositions ex") (auto simp: rest_positions_def split: if_splits)

lemma rest_pass_Some:
  assumes "rest_processBalanceData ex cc bd gn bo = (e, bo')" and "bo' gn = Some g'"
  shows "\<exists>g. bo gn = Some g \<and> baseCurrency g' = baseCurrency g
           \<and> (e = None \<longrightarrow> total g' = sumBaseValues (balances g'))
           \<and> (\<forall>k a. (k, a) \<in> set (balances g') \<longrightarrow>
                 (\<exists>amt. rest_valueEntry ex cc (baseCurrency g) k amt = Inr (Some a))
                 \<or> type a = futures)"
proof (cases "bo gn")
  case None
  then show ?thesis using assms by (simp add: rest_processBalanceData_def)
next
  case (Some g)
  obtain err spotAssets
    where loop: "rest_spotLoop ex cc (baseCurrency g) (usdcFirst (totalOf bd)) [] = (err, spotAssets)"
    by (cases "rest_spotLoop ex cc (baseCurrency g) (usdcFirst (totalOf bd)) []")
  have spot: "\<exists>amt. rest_valueEntry ex cc (baseCurrency g) k amt = Inr (Some a)"
    if "(k, a) \<in> set spotAssets" for k a
    using rest_spotLoop_set [of k a ex cc "baseCurrency g" "usdcFirst (totalOf bd)" "[]"] that loop
    by auto
  show ?thesis
  proof (cases err)
    case None
    then have g': "g' = g\<lparr>balances := rest_positions ex spotAssets,
                          total := sumBaseValues (rest_positions ex spotAssets)\<rparr>"
      and e: "e = None"
      using assms Some loop by (auto simp: rest_processBalanceData_def Let_def)
    have "(\<exists>amt. rest_valueEntry ex cc (baseCurrency g) k amt = Inr (Some a)) \<or> type a = futures"
      if "(k, a) \<in> set (balances g')" for k a
    proof -
      from that have "(k, a) \<in> set (rest_positions ex spotAssets)" by (simp add: g')
      then have "(k, a) \<in> set spotAssets \<or> type a = futures" by (rule rest_positions_set)
      then show ?thesis using spot by blast
    qed
    moreover have "baseCurrency g' = baseCurrency g" "total g' = sumBaseValues (balances g')"
      by (simp_all add: g')
    ultimately show ?thesis using Some by blast
  next
    case (Some er)
    then have g': "g' = g\<lparr>balances := spotAssets\<rparr>" and e: "e = Some er"
      using assms \<open>bo gn = Some g\<close> loop by (auto simp: rest_processBalanceData_def)
    show ?thesis
      using \<open>bo gn = Some g\<close> g' e spot by auto
  qed
qed


subsection \<open>Fallback exhaustion\<close>

text \<open>
  C4.  Let the currency \<open>c\<close> differ from the group's valuation currency, and let its
  price be unresolved: there is no candidate pair on the connection's exchange and every
  alternate exchange fails or lists none, or the price found is falsy (0, \<open>undefined\<close>
  or \<open>NaN\<close>).  Then, whatever the snapshot and the cache, no spot asset of \<open>c\<close>
  is in the balances a pass publishes (an entry under that key, if any, is a futures
  position's), and the published total is the sum over the published assets.  This holds
  for the four passes of \<open>ws.js\<close>, which also end without an exception, and for
  \<open>rest.js\<close>, where the total is recomputed when the pass ends without one.
\<close>

theorem unresolved_price_suppresses_asset:
  assumes "bo gn = Some g" and "c \<noteq> baseCurrency g"
  shows "(pass \<in> cachePasses \<longrightarrow>
            noPairAnywhere ex cc c (baseCurrency g)
              \<or> (\<exists>p. lookupPrice ex cc c (baseCurrency g) = Some p \<and> \<not> truthy p) \<longrightarrow>
            pass ex cc bd gn bo cache = (e, bo', cache') \<longrightarrow>
            bo' gn = Some g' \<longrightarrow>
              e = None \<and> (\<forall>x. (c, x) \<in> set (balances g') \<longrightarrow> type x = futures)
              \<and> total g' = sumBaseValues (balances g'))
       \<and> (noPairAnywhere ex cc c (baseCurrency g)
              \<or> (\<exists>p. rest_lookupPrice ex cc c (baseCurrency g) = Inr (Some p) \<and> \<not> truthy p) \<longrightarrow>
            rest_processBalanceData ex cc bd gn bo = (e2, bo2) \<longrightarrow>
            bo2 gn = Some g2 \<longrightarrow>
              (\<forall>x. (c, x) \<in> set (balances g2) \<longrightarrow> type x = futures)
              \<and> (e2 = None \<longrightarrow> total g2 = sumBaseValues (balances g2)))"
proof (intro conjI impI)
  assume p: "pass \<in> cachePasses"
    and u: "noPairAnywhere ex cc c (baseCurrency g)
              \<or> (\<exists>p. lookupPrice ex cc c (baseCurrency g) = Some p \<and> \<not> truthy p)"
    and r: "pass ex cc bd gn bo cache = (e, bo', cache')" and g': "bo' gn = Some g'"
  have b: "baseCurrency g' = baseCurrency g"
    using cachePass_Some [OF p r g'] assms(1) by auto
  show "e = None" using cachePass_Some [OF p r g'] by blast
  show "total g' = sumBaseValues (balances g')" using cachePass_Some [OF p r g'] by blast
  show "\<forall>x. (c, x) \<in> set (balances g') \<longrightarrow> type x = futures"
  proof (intro allI impI)
    fix x assume "(c, x) \<in> set (balances g')"
    from cachePass_set [OF p r g' this] show "type x = futures"
      using valueEntry_unresolved [OF assms(2) u] b by auto
  qed
next
  assume u: "noPairAnywhere ex cc c (baseCurrency g)
              \<or> (\<exists>p. rest_lookupPrice ex cc c (baseCurrency g) = Inr (Some p) \<and> \<not> truthy p)"
    and r: "rest_processBalanceData ex cc bd gn bo = (e2, bo2)" and g2: "bo2 gn = Some g2"
  from rest_pass_Some [OF r g2] assms(1)
  have t: "e2 = None \<longrightarrow> total g2 = sumBaseValues (balances g2)"
    and s: "\<forall>k a. (k, a) \<in> set (balances g2) \<longrightarrow>
                 (\<exists>amt. rest_valueEntry ex cc (baseCurrency g) k amt = Inr (Some a))
                 \<or> type a = futures"
    by auto
  show "\<forall>x. (c, x) \<in> set (balances g2) \<longrightarrow> type x = futures"
    using s rest_valueEntry_unresolved [OF assms(2) u] by fastforce
  show "e2 = None \<Longrightarrow> total g2 = sumBaseValues (balances g2)"
    using t by simp
qed

theorem unresolved_price_suppresses_asset_witness:
  "ws_processBalanceData plainConn offline (Some [(''XYZ'', Num 5), (''USD'', Num 100)]) ''main'' bo0 []
     = (None,
        bo0(''main'' \<mapsto> usdGroup\<lparr>balances :=
              [(''USD'', \<lparr>symbol = ''USD'', amount = Num 100, baseValue = Num 100, type = spot\<rparr>)],
              total := Num 100\<rparr>),
        [(''XYZ'', Num 5), (''USD'', Num 100)])
   \<and> rest_processBalanceData plainConn offline (Some [(''XYZ'', Num 5), (''USD'', Num 100)]) ''main'' bo0
     = (None,
        bo0(''main'' \<mapsto> usdGroup\<lparr>balances :=
              [(''USD'', \<lparr>symbol = ''USD'', amount = Num 100, baseValue = Num 100, type = spot\<rparr>)],
              total := Num 100\<rparr>))
   \<and> total (usdGroup\<lparr>balances :=
              [(''USD'', \<lparr>symbol = ''USD'', amount = Num 100, baseValue = Num 100, type = spot\<rparr>)],
              total := Num 100\<rparr>)
       = sumBaseValues (balances (usdGroup\<lparr>balances :=
              [(''USD'', \<lparr>symbol = ''USD'', amount = Num 100, baseValue = Num 100, type = spot\<rparr>)],
              total := Num 100\<rparr>))"
proof -
  let ?g = "usdGroup\<lparr>balances :=
              [(''USD'', \<lparr>symbol = ''USD'', amount = Num 100, baseValue = Num 100, type = spot\<rparr>)],
              total := Num 100\<rparr>"
  let ?bd = "Some [(''XYZ'', Num 5), (''USD'', Num 100)]"
  have 1: "bo0 ''main'' = Some usdGroup" by (simp add: bo0_def)
  have 2: "''XYZ'' \<noteq> baseCurrency usdGroup" by (simp add: usdGroup_def)
  have 3: "ws_processBalanceData \<in> cachePasses" by (simp add: cachePasses_def)
  have 4: "noPairAnywhere plainConn offline ''XYZ'' (baseCurrency usdGroup)"
    by (simp add: noPairAnywhere_def altFails_def possiblePairs_def alternativeExchanges_def
        plainConn_def offline_def usdGroup_def)
  have 5: "ws_processBalanceData plainConn offline ?bd ''main'' bo0 []
             = (None, bo0(''main'' \<mapsto> ?g), [(''XYZ'', Num 5), (''USD'', Num 100)])"
    by (simp add: ws_processBalanceData_def eval_defs)
  have 6: "rest_processBalanceData plainConn offline ?bd ''main'' bo0 = (None, bo0(''main'' \<mapsto> ?g))"
    by (simp add: rest_processBalanceData_def rest_positions_def usdcFirst_def rest_valueEntry_def
        rest_lookupPrice_def rest_fetchPriceFromAlternativeExchange_def eval_defs)
  have 7: "(bo0(''main'' \<mapsto> ?g)) ''main'' = Some ?g" by simp
  note inst = unresolved_price_suppresses_asset
    [where bo = bo0 and gn = "''main''" and g = usdGroup and c = "''XYZ''"
       and pass = ws_processBalanceData and ex = plainConn and cc = offline and bd = ?bd
       and cache = "[]" and e = None and bo' = "bo0(''main'' \<mapsto> ?g)"
       and cache' = "[(''XYZ'', Num 5), (''USD'', Num 100)]" and g' = ?g
       and ?e2.0 = None and ?bo2.0 = "bo0(''main'' \<mapsto> ?g)" and ?g2.0 = ?g]
  from inst [OF 1 2] 3 4 5 6 7 show ?thesis by blast
qed

text \<open>
  The price meant above is the one the pass tests, after the inversion.  A ticker of 0 on
  an inverted pair is not such a case: \<open>1 / 0\<close> is \<open>Infinity\<close>, which is
  truthy, and the asset is published with an infinite value.
\<close>

lemma zero_ticker_on_inverted_pair:
  "lookupPrice zeroEx offline ''ETH'' ''USD'' = Some PosInf
   \<and> valueEntry zeroEx offline ''USD'' ''ETH'' (Num 2)
       = Some \<lparr>symbol = ''ETH'', amount = Num 2, baseValue = PosInf, type = spot\<rparr>"
  by (simp add: valueEntry_def lookupPrice_def zeroEx_def firstMarket_def possiblePairs_def
      invertPrice_def startsWith_def js_or_def inf_of_sign_def)

subsection \<open>Valuation-currency identity\<close>

lemma rest_positionsLoop_frame:
  "k \<notin> pos_symbol ` set ps \<Longrightarrow> map_of (rest_positionsLoop ex ps acc) k = map_of acc k"
proof (induction ps arbitrary: acc)
  case Nil
  then show ?case by simp
next
  case (Cons p ps)
  then have k: "k \<noteq> pos_symbol p" and rest: "k \<notin> pos_symbol ` set ps" by auto
  show ?case
    using Cons.IH [OF rest] k
    by (auto simp: update_conv' split: sum.splits)
qed

lemma rest_positions_frame:
  "notPositionSymbol ex k \<Longrightarrow> map_of (rest_positions ex acc) k = map_of acc k"
  by (auto simp: rest_positions_def notPositionSymbol_def rest_positionsLoop_frame split: sum.splits)

lemma updateCache_other:
  "c \<notin> fst ` set snap \<Longrightarrow> map_of (updateCache cache snap) c = map_of cache c"
proof (induction snap arbitrary: cache)
  case Nil
  then show ?case by simp
next
  case (Cons x snap)
  obtain k b where x: "x = (k, b)" by (cases x)
  have k: "k \<noteq> c" and rest: "c \<notin> fst ` set snap"
    using Cons.prems x by auto
  have u: "map_of (AList.update k b cache) c = map_of cache c"
    using k by (simp add: update_conv')
  have d: "map_of (AList.delete k cache) c = map_of cache c"
    using k by simp
  show ?case
    using Cons.IH [OF rest, of "AList.update k b cache"] Cons.IH [OF rest, of "AList.delete k cache"]
      Cons.IH [OF rest, of cache] u d updateCache_step [of cache k b snap]
    unfolding x by metis
qed

text \<open>An amount above the threshold is in the cache after the snapshot that lists it.\<close>

lemma updateCache_stores:
  assumes "distinct (map fst snap)" and "(c, a) \<in> set snap"
    and "truthy a" and "js_lt (Num (1 / 1000000)) (js_abs a)"
  shows "map_of (updateCache cache snap) c = Some a"
  using assms(1,2)
proof (induction snap arbitrary: cache)
  case Nil
  then show ?case by simp
next
  case (Cons x snap)
  obtain k b where x: "x = (k, b)" by (cases x)
  show ?case
  proof (cases "(c, a) = x")
    case True
    then have kc: "k = c" "b = a" using x by auto
    have "c \<notin> fst ` set snap" using Cons.prems(1) kc x by auto
    then have "map_of (updateCache (AList.update c a cache) snap) c
                 = map_of (AList.update c a cache) c"
      by (rule updateCache_other)
    then show ?thesis
      using assms(3,4) kc x by (simp add: update_conv')
  next
    case False
    then have m: "(c, a) \<in> set snap" using Cons.prems(2) by auto
    have d: "distinct (map fst snap)" using Cons.prems(1) by simp
    show ?thesis
      using Cons.IH [OF d m, of "AList.update k b cache"] Cons.IH [OF d m, of "AList.delete k cache"]
        Cons.IH [OF d m, of cache] updateCache_step [of cache k b snap]
      unfolding x by metis
  qed
qed

lemma usdcFirst_keeps:
  assumes "distinct (map fst t)"
  shows "distinct (map fst (usdcFirst t))"
    and "(c, a) \<in> set t \<Longrightarrow> c \<noteq> ''USDC'' \<Longrightarrow> (c, a) \<in> set (usdcFirst t)"
proof -
  have "''USDC'' \<notin> fst ` set (AList.delete ''USDC'' t)" by (rule delete_notin_dom)
  then show "distinct (map fst (usdcFirst t))"
    using assms distinct_delete [OF assms, of "''USDC''"] by (simp add: usdcFirst_def)
  show "(c, a) \<in> set t \<Longrightarrow> c \<noteq> ''USDC'' \<Longrightarrow> (c, a) \<in> set (usdcFirst t)"
    by (auto simp: usdcFirst_def AList.delete_eq)
qed

lemma rest_spotLoop_frame:
  "c \<notin> fst ` set snap \<Longrightarrow> map_of (snd (rest_spotLoop ex cc b snap acc)) c = map_of acc c"
proof (induction snap arbitrary: acc)
  case Nil
  then show ?case by simp
next
  case (Cons x snap)
  obtain k amt where x: "x = (k, amt)" by (cases x)
  have k: "k \<noteq> c" and rest: "c \<notin> fst ` set snap"
    using Cons.prems x by auto
  show ?case
    using Cons.IH [OF rest] k
    by (auto simp: x update_conv' split: sum.splits option.splits)
qed

text \<open>
  When the loop of \<open>rest.js\<close> ends without an exception, an amount of the valuation
  currency above the threshold is stored as it is.
\<close>

lemma rest_spotLoop_stores:
  assumes "distinct (map fst snap)" and "(b, a) \<in> set snap"
    and "truthy a" and "js_lt (Num (1 / 100000000)) (js_abs a)"
    and "fst (rest_spotLoop ex cc b snap acc) = None"
  shows "map_of (snd (rest_spotLoop ex cc b snap acc)) b
           = Some \<lparr>symbol = b, amount = a, baseValue = a, type = spot\<rparr>"
  using assms(1,2,5)
proof (induction snap arbitrary: acc)
  case Nil
  then show ?case by simp
next
  case (Cons x snap)
  obtain k amt where x: "x = (k, amt)" by (cases x)
  show ?case
  proof (cases "(b, a) = x")
    case True
    then have kb: "k = b" "amt = a" using x by auto
    let ?v = "\<lparr>symbol = b, amount = a, baseValue = a, type = spot\<rparr>"
    have fresh: "b \<notin> fst ` set snap" using Cons.prems(1) kb x by auto
    have step: "rest_spotLoop ex cc b (x # snap) acc
                  = rest_spotLoop ex cc b snap (AList.update b ?v acc)"
      using assms(3,4) kb x by (simp add: rest_valueEntry_def)
    show ?thesis
      unfolding step by (simp add: rest_spotLoop_frame [OF fresh] update_conv')
  next
    case False
    then have m: "(b, a) \<in> set snap" using Cons.prems(2) by auto
    have d: "distinct (map fst snap)" using Cons.prems(1) by simp
    have "\<exists>acc'. rest_spotLoop ex cc b (x # snap) acc = rest_spotLoop ex cc b snap acc'"
      using Cons.prems(3) by (auto simp: x split: sum.splits option.splits if_splits)
    then obtain acc' where step: "rest_spotLoop ex cc b (x # snap) acc = rest_spotLoop ex cc b snap acc'"
      by blast
    have "fst (rest_spotLoop ex cc b snap acc') = None"
      using Cons.prems(3) step by simp
    from Cons.IH [OF d m this] show ?thesis unfolding step .
  qed
qed

text \<open>
  The identity holds in every pass of \<open>ws.js\<close>, whatever else the snapshot lists, and
  in \<open>rest.js\<close> whenever the pass ends without an exception: for every exchange and
  every state of the alternate exchanges, a snapshot that lists \<open>USD: 100\<close> gives the
  published asset \<open>{symbol: USD, amount: 100, baseValue: 100, type: spot}\<close> in a group
  valued in USD.  Positions are stored in the same mapping under their instrument
  symbol, so no fetched position may be called \<open>USD\<close>; the cache and the snapshot are
  JavaScript objects, so their keys are distinct.
\<close>

lemma valuation_currency_published:
  assumes "bo gn = Some g" and "baseCurrency g = ''USD''"
    and "notPositionSymbol ex ''USD''" and "distinct (map fst cache)"
    and "distinct (map fst snap)" and "(''USD'', Num 100) \<in> set snap"
  shows "(pass \<in> cachePasses \<longrightarrow>
           (\<exists>bo' cache' g'.
              pass ex cc (Some snap) gn bo cache = (None, bo', cache')
              \<and> bo' gn = Some g' \<and> map_of (balances g') ''USD'' = Some usd100))
       \<and> (rest_processBalanceData ex cc (Some snap) gn bo = (None, bo2) \<longrightarrow>
           (\<exists>g2. bo2 gn = Some g2 \<and> map_of (balances g2) ''USD'' = Some usd100))"
proof (intro conjI impI)
  let ?bd = "Some snap"
  assume p: "pass \<in> cachePasses"
  obtain bo' g' where r: "pass ex cc ?bd gn bo cache = (None, bo', updateCache cache (totalOf ?bd))"
    and g': "bo' gn = Some g'"
    using cachePass_defined [where bo = bo and gn = gn, OF p assms(1)] by blast
  have b: "baseCurrency g' = ''USD''"
    using cachePass_Some [OF p r g'] assms(1,2) by auto
  have c: "map_of (updateCache cache (totalOf ?bd)) ''USD'' = Some (Num 100)"
    using updateCache_stores [OF assms(5,6), of cache] by (simp add: totalOf_def)
  have v: "valueEntry ex cc ''USD'' ''USD'' (Num 100) = Some usd100"
    by (simp add: valueEntry_def usd100_def)
  have "map_of (balances g') ''USD'' = Some usd100"
    using cachePass_frame [OF p r g' assms(3,4)] b c v by simp
  with r g' show "\<exists>bo' cache' g'.
              pass ex cc ?bd gn bo cache = (None, bo', cache')
              \<and> bo' gn = Some g' \<and> map_of (balances g') ''USD'' = Some usd100"
    by blast
next
  assume r: "rest_processBalanceData ex cc (Some snap) gn bo = (None, bo2)"
  let ?snap = "usdcFirst (totalOf (Some snap))"
  obtain err spotAssets where l: "rest_spotLoop ex cc ''USD'' ?snap [] = (err, spotAssets)"
    by (cases "rest_spotLoop ex cc ''USD'' ?snap []")
  have err: "err = None"
    using r l assms(1,2) by (cases err) (simp_all add: rest_processBalanceData_def)
  let ?assets = "rest_positions ex spotAssets"
  let ?g2 = "g\<lparr>balances := ?assets, total := sumBaseValues ?assets\<rparr>"
  have bo2: "bo2 = bo(gn \<mapsto> ?g2)"
    using r l err assms(1,2) by (simp add: rest_processBalanceData_def Let_def)
  have d: "distinct (map fst ?snap)"
    using usdcFirst_keeps(1) [OF assms(5)] by (simp add: totalOf_def)
  have m: "(''USD'', Num 100) \<in> set ?snap"
    using usdcFirst_keeps(2) [OF assms(5,6)] by (simp add: totalOf_def)
  have "map_of (snd (rest_spotLoop ex cc ''USD'' ?snap [])) ''USD''
          = Some \<lparr>symbol = ''USD'', amount = Num 100, baseValue = Num 100, type = spot\<rparr>"
    using l err by (intro rest_spotLoop_stores [OF d m]) simp_all
  then have "map_of spotAssets ''USD'' = Some usd100"
    using l by (simp add: usd100_def)
  then have "map_of (balances ?g2) ''USD'' = Some usd100"
    using rest_positions_frame [OF assms(3)] by simp
  then show "\<exists>g2. bo2 gn = Some g2 \<and> map_of (balances g2) ''USD'' = Some usd100"
    unfolding bo2 by simp
qed

text \<open>
  C5.  In \<open>rest.js\<close> the identity depends on the market data of the other currencies
  of the snapshot.  With \<open>{BTC: 1, USD: 100}\<close>, BTC/USD listed and its ticker
  throwing, the pass ends with the exception before it reaches USD: the group publishes
  no asset at all.  The pass of \<open>ws.js\<close> on the same input publishes
  \<open>{symbol: USD, amount: 100, baseValue: 100, type: spot}\<close>.
\<close>

theorem rest_aborted_pass_drops_valuation_currency:
  "rest_processBalanceData btcDownConn offline (Some [(''BTC'', Num 1), (''USD'', Num 100)])
       ''main'' bo0
     = (Some (Error ''timeout''), bo0(''main'' \<mapsto> usdGroup\<lparr>balances := []\<rparr>))
   \<and> map_of (balances (usdGroup\<lparr>balances := []\<rparr>)) ''USD'' = None
   \<and> ws_processBalanceData btcDownConn offline (Some [(''BTC'', Num 1), (''USD'', Num 100)])
       ''main'' bo0 []
     = (None, bo0(''main'' \<mapsto> usdGroup\<lparr>balances := [(''USD'', usd100)], total := Num 100\<rparr>),
        [(''BTC'', Num 1), (''USD'', Num 100)])"
proof -
  have r: "rest_processBalanceData btcDownConn offline (Some [(''BTC'', Num 1), (''USD'', Num 100)])
       ''main'' bo0
     = (Some (Error ''timeout''), bo0(''main'' \<mapsto> usdGroup\<lparr>balances := []\<rparr>))"
    by (simp add: rest_processBalanceData_def usdcFirst_def rest_valueEntry_def rest_lookupPrice_def
        btcDownConn_def eval_defs)
  have n: "map_of (balances (usdGroup\<lparr>balances := []\<rparr>)) ''USD'' = None" by simp
  have w: "ws_processBalanceData btcDownConn offline (Some [(''BTC'', Num 1), (''USD'', Num 100)])
       ''main'' bo0 []
     = (None, bo0(''main'' \<mapsto> usdGroup\<lparr>balances := [(''USD'', usd100)], total := Num 100\<rparr>),
        [(''BTC'', Num 1), (''USD'', Num 100)])"
    by (simp add: ws_processBalanceData_def btcDownConn_def usd100_def eval_defs)
  from r n w show ?thesis by blast
qed

subsection \<open>Futures positions\<close>

lemma processCache_spot:
  "(k, a) \<in> set (processCache ex cc b cache []) \<Longrightarrow> type a = spot"
  using processCache_set [of k a ex cc b cache "[]"] valueEntry_Some by fastforce

lemma dust_UPNL:
  "js_lt (js_abs u) (Num (1 / 100)) \<Longrightarrow> js_lt (js_abs (js_or u (Num 0))) (Num (1 / 100))"
  by (cases u) (auto simp: js_or_def)

lemma positionsLoop_dust:
  assumes "\<forall>q \<in> set ps. pos_symbol q = s \<longrightarrow> js_lt (js_abs (unrealizedPnl q)) (Num (1 / 100))"
    and "(s, x) \<in> set (positionsLoop ex ps acc)"
  shows "(s, x) \<in> set acc"
proof -
  from positionsLoop_set [OF assms(2)] show ?thesis
  proof
    assume "(s, x) \<in> set acc"
    then show ?thesis .
  next
    assume "\<exists>p \<in> set ps. s = pos_symbol p \<and> contracts p \<noteq> Num 0 \<and> markets ex s
        \<and> \<not> js_lt (js_abs (js_or (unrealizedPnl p) (Num 0))) (Num (1 / 100))
        \<and> x = \<lparr>symbol = s, amount = contracts p,
                 baseValue = js_or (unrealizedPnl p) (Num 0), type = futures\<rparr>"
    then obtain p :: position where "p \<in> set ps" and "s = pos_symbol p"
      and "\<not> js_lt (js_abs (js_or (unrealizedPnl p) (Num 0))) (Num (1 / 100))"
      by blast
    then show ?thesis using assms(1) dust_UPNL by blast
  qed
qed

lemma positionsLoop_present:
  assumes "\<forall>q \<in> set (pre @ [p]). contracts q \<noteq> Num 0 \<and> markets ex (pos_symbol q)
            \<longrightarrow> \<not> isl (fetchTicker ex (pos_symbol q))"
    and "pos_symbol p \<notin> pos_symbol ` set post"
    and "contracts p \<noteq> Num 0" and "markets ex (pos_symbol p)"
    and "\<not> js_lt (js_abs (js_or (unrealizedPnl p) (Num 0))) (Num (1 / 100))"
  shows "map_of (positionsLoop ex (pre @ p # post) acc) (pos_symbol p)
           = Some \<lparr>symbol = pos_symbol p, amount = contracts p,
                    baseValue = js_or (unrealizedPnl p) (Num 0), type = futures\<rparr>"
  using assms(1)
proof (induction pre arbitrary: acc)
  case Nil
  obtain t where t: "fetchTicker ex (pos_symbol p) = Inr t"
    using Nil assms(3,4) by (cases "fetchTicker ex (pos_symbol p)") auto
  show ?case
    using t assms(2,3,4,5) by (simp add: positionsLoop_frame update_conv')
next
  case (Cons q pre)
  have tick: "\<forall>r \<in> set (pre @ [p]). contracts r \<noteq> Num 0 \<and> markets ex (pos_symbol r)
            \<longrightarrow> \<not> isl (fetchTicker ex (pos_symbol r))"
    using Cons.prems by simp
  have "\<And>acc'. map_of (positionsLoop ex (pre @ p # post) acc') (pos_symbol p)
           = Some \<lparr>symbol = pos_symbol p, amount = contracts p,
                    baseValue = js_or (unrealizedPnl p) (Num 0), type = futures\<rparr>"
    using Cons.IH [OF tick] .
  moreover have "contracts q \<noteq> Num 0 \<and> markets ex (pos_symbol q)
        \<Longrightarrow> \<exists>t. fetchTicker ex (pos_symbol q) = Inr t"
    using Cons.prems by (cases "fetchTicker ex (pos_symbol q)") auto
  ultimately show ?case
    by (auto simp: Let_def split: sum.splits)
qed

text \<open>The same for the loop of \<open>rest.js\<close>, which has neither market check nor threshold.\<close>

lemma rest_positionsLoop_present:
  assumes "\<forall>q \<in> set (pre @ [p]). contracts q \<noteq> Num 0
            \<longrightarrow> \<not> isl (fetchTicker ex (pos_symbol q))"
    and "pos_symbol p \<notin> pos_symbol ` set post"
    and "contracts p \<noteq> Num 0"
  shows "map_of (rest_positionsLoop ex (pre @ p # post) acc) (pos_symbol p)
           = Some \<lparr>symbol = pos_symbol p, amount = contracts p,
                    baseValue = js_or (unrealizedPnl p) (Num 0), type = futures\<rparr>"
  using assms(1)
proof (induction pre arbitrary: acc)
  case Nil
  obtain t where t: "fetchTicker ex (pos_symbol p) = Inr t"
    using Nil assms(3) by (cases "fetchTicker ex (pos_symbol p)") auto
  show ?case
    using t assms(2,3) by (simp add: rest_positionsLoop_frame update_conv')
next
  case (Cons q pre)
  have tick: "\<forall>r \<in> set (pre @ [p]). contracts r \<noteq> Num 0
            \<longrightarrow> \<not> isl (fetchTicker ex (pos_symbol r))"
    using Cons.prems by simp
  have "\<And>acc'. map_of (rest_positionsLoop ex (pre @ p # post) acc') (pos_symbol p)
           = Some \<lparr>symbol = pos_symbol p, amount = contracts p,
                    baseValue = js_or (unrealizedPnl p) (Num 0), type = futures\<rparr>"
    using Cons.IH [OF tick] .
  moreover have "contracts q \<noteq> Num 0 \<Longrightarrow> \<exists>t. fetchTicker ex (pos_symbol q) = Inr t"
    using Cons.prems by (cases "fetchTicker ex (pos_symbol q)") auto
  ultimately show ?case
    by (auto split: sum.splits)
qed

lemma positionPass_dust:
  assumes "pass \<in> cachePasses" and "pass ex cc bd gn bo cache = (e, bo', cache')"
    and "bo' gn = Some g'" and "fetchPositions ex = Inr ps"
    and "\<forall>q \<in> set ps. pos_symbol q = s \<longrightarrow> js_lt (js_abs (unrealizedPnl q)) (Num (1 / 100))"
    and "(s, x) \<in> set (balances g')"
  shows "type x = spot"
proof -
  obtain g :: group where b: "balances g' = processCache ex cc (baseCurrency g) cache' []
              \<or> balances g' = ws_positions ex (processCache ex cc (baseCurrency g) cache' [])
              \<or> balances g' = fund_positions ex (processCache ex cc (baseCurrency g) cache' [])"
    using cachePass_Some [OF assms(1,2,3)] by blast
  let ?spot = "processCache ex cc (baseCurrency g) cache' []"
  have "balances g' = ?spot \<or> balances g' = positionsLoop ex ps ?spot"
    using b assms(4) by (auto simp: ws_positions_def fund_positions_def)
  then have "(s, x) \<in> set ?spot"
    using assms(6) positionsLoop_dust [OF assms(5), of x ex ?spot] by auto
  then show ?thesis by (rule processCache_spot)
qed

lemma positionPass_reads:
  assumes "pass \<in> positionPasses" and "pass ex cc bd gn bo cache = (e, bo', cache')"
    and "bo' gn = Some g'" and "fetchPositions ex = Inr ps"
    and "has_fetchPositions ex" and "pass \<noteq> ws_processBalanceData \<longrightarrow> defaultType ex = Some ''swap''"
  shows "balances g' = positionsLoop ex ps (processCache ex cc (baseCurrency g') cache' [])"
proof (cases "pass = ws_processBalanceData")
  case True
  then show ?thesis using assms(2,3,4,5)
    by (cases "bo gn") (auto simp: ws_processBalanceData_def Let_def ws_positions_def)
next
  case False
  then have gate: "defaultType ex = Some ''swap''" using assms(6) by simp
  from False assms(1) consider (c) "pass = fund_processBalanceData"
    | (d) "pass = fund_compileAndUpdateBalances"
    by (auto simp: positionPasses_def)
  then show ?thesis
  proof cases
    case c
    then show ?thesis using assms(2,3,4,5) gate
      by (cases "bo gn")
        (auto simp: fund_processBalanceData_def Let_def fund_positions_def fundAccountStep_primary)
  next
    case d
    then show ?thesis using assms(2,3,4,5) gate
      by (cases "bo gn")
        (auto simp: fund_compileAndUpdateBalances_def Let_def fund_positions_def
          fundAccountStep_primary)
  qed
qed

lemma rest_pass_reads:
  assumes "rest_processBalanceData ex cc bd gn bo = (None, bo2)" and "bo2 gn = Some g2"
    and "fetchPositions ex = Inr ps" and "has_fetchPositions ex"
  shows "balances g2 = rest_positionsLoop ex ps
           (snd (rest_spotLoop ex cc (baseCurrency g2) (usdcFirst (totalOf bd)) []))"
proof (cases "bo gn")
  case None
  then show ?thesis using assms(1) by (simp add: rest_processBalanceData_def)
next
  case (Some g)
  obtain err spotAssets
    where l: "rest_spotLoop ex cc (baseCurrency g) (usdcFirst (totalOf bd)) [] = (err, spotAssets)"
    by (cases "rest_spotLoop ex cc (baseCurrency g) (usdcFirst (totalOf bd)) []")
  have err: "err = None"
    using assms(1) l Some by (cases err) (simp_all add: rest_processBalanceData_def)
  have "g2 = g\<lparr>balances := rest_positionsLoop ex ps spotAssets,
                 total := sumBaseValues (rest_positionsLoop ex ps spotAssets)\<rparr>"
    using assms l err Some by (auto simp: rest_processBalanceData_def rest_positions_def Let_def)
  then show ?thesis using l by simp
qed

text \<open>
  C8 (as amended).  A position with \<open>|unrealizedPnl| < 0.01\<close> gives no asset in the
  passes of \<open>ws.js\<close> that read positions (\<open>processBalanceData\<close>, and both passes
  of the fund-account revision): when every fetched position of an instrument is such,
  no futures asset is published under that instrument.  A position with non-zero
  contracts and \<open>unrealizedPnl = -5\<close> is published as
  \<open>{type: futures, baseValue: -5}\<close>, with the contracts as amount, in those passes and
  in \<open>rest.js\<close>, when the pass reads the positions (the exchange has
  \<open>fetchPositions\<close>; in the fund-account revision \<open>defaultType\<close> is \<open>swap\<close>; in
  \<open>rest.js\<close> the loop over the balances has ended without an exception), the tickers
  fetched for the positions up to this one do not throw, no later position has the same
  symbol, and, in \<open>ws.js\<close>, the instrument is a known market.
\<close>

theorem futures_valuation:
  assumes "fetchPositions ex = Inr ps"
  shows "(pass \<in> positionPasses \<and> pass ex cc bd gn bo cache = (e, bo', cache') \<and> bo' gn = Some g'
            \<longrightarrow>
            ((\<forall>q \<in> set ps. pos_symbol q = s \<longrightarrow> js_lt (js_abs (unrealizedPnl q)) (Num (1 / 100)))
               \<longrightarrow> (\<forall>x. (s, x) \<in> set (balances g') \<longrightarrow> type x = spot))
            \<and> (has_fetchPositions ex
                 \<and> (pass \<noteq> ws_processBalanceData \<longrightarrow> defaultType ex = Some ''swap'')
                 \<and> ps = pre @ p # post \<and> pos_symbol p \<notin> pos_symbol ` set post
                 \<and> (\<forall>q \<in> set (pre @ [p]). contracts q \<noteq> Num 0 \<and> markets ex (pos_symbol q)
                       \<longrightarrow> \<not> isl (fetchTicker ex (pos_symbol q)))
                 \<and> contracts p \<noteq> Num 0 \<and> markets ex (pos_symbol p)
                 \<and> unrealizedPnl p = Num (- 5)
                 \<longrightarrow> map_of (balances g') (pos_symbol p)
                       = Some \<lparr>symbol = pos_symbol p, amount = contracts p,
                                baseValue = Num (- 5), type = futures\<rparr>))
       \<and> (rest_processBalanceData ex cc bd gn bo = (None, bo2) \<and> bo2 gn = Some g2
            \<and> has_fetchPositions ex
            \<and> ps = pre @ p # post \<and> pos_symbol p \<notin> pos_symbol ` set post
            \<and> (\<forall>q \<in> set (pre @ [p]). contracts q \<noteq> Num 0
                  \<longrightarrow> \<not> isl (fetchTicker ex (pos_symbol q)))
            \<and> contracts p \<noteq> Num 0 \<and> unrealizedPnl p = Num (- 5)
            \<longrightarrow> map_of (balances g2) (pos_symbol p)
                  = Some \<lparr>symbol = pos_symbol p, amount = contracts p,
                           baseValue = Num (- 5), type = futures\<rparr>)"
proof (intro conjI impI allI)
  fix x
  assume r: "pass \<in> positionPasses \<and> pass ex cc bd gn bo cache = (e, bo', cache') \<and> bo' gn = Some g'"
    and "\<forall>q \<in> set ps. pos_symbol q = s \<longrightarrow> js_lt (js_abs (unrealizedPnl q)) (Num (1 / 100))"
    and "(s, x) \<in> set (balances g')"
  moreover have "pass \<in> cachePasses"
    using r by (auto simp: positionPasses_def cachePasses_def)
  ultimately show "type x = spot"
    using positionPass_dust assms by blast
next
  assume r: "pass \<in> positionPasses \<and> pass ex cc bd gn bo cache = (e, bo', cache') \<and> bo' gn = Some g'"
    and h: "has_fetchPositions ex
                 \<and> (pass \<noteq> ws_processBalanceData \<longrightarrow> defaultType ex = Some ''swap'')
                 \<and> ps = pre @ p # post \<and> pos_symbol p \<notin> pos_symbol ` set post
                 \<and> (\<forall>q \<in> set (pre @ [p]). contracts q \<noteq> Num 0 \<and> markets ex (pos_symbol q)
                       \<longrightarrow> \<not> isl (fetchTicker ex (pos_symbol q)))
                 \<and> contracts p \<noteq> Num 0 \<and> markets ex (pos_symbol p)
                 \<and> unrealizedPnl p = Num (- 5)"
  define acc where "acc = processCache ex cc (baseCurrency g') cache' []"
  have b: "balances g' = positionsLoop ex (pre @ p # post) acc"
    unfolding acc_def using positionPass_reads [of pass ex cc bd gn bo cache e bo' cache' g' ps]
      r h assms by blast
  have u: "js_or (unrealizedPnl p) (Num 0) = Num (- 5)"
    using h by (simp add: js_or_def)
  have nd: "\<not> js_lt (js_abs (js_or (unrealizedPnl p) (Num 0))) (Num (1 / 100))"
    unfolding u by simp
  have "map_of (positionsLoop ex (pre @ p # post) acc) (pos_symbol p)
           = Some \<lparr>symbol = pos_symbol p, amount = contracts p,
                    baseValue = js_or (unrealizedPnl p) (Num 0), type = futures\<rparr>"
    using positionsLoop_present [of pre p ex post acc] h nd by blast
  then show "map_of (balances g') (pos_symbol p)
                  = Some \<lparr>symbol = pos_symbol p, amount = contracts p,
                           baseValue = Num (- 5), type = futures\<rparr>"
    unfolding b u .
next
  assume h: "rest_processBalanceData ex cc bd gn bo = (None, bo2) \<and> bo2 gn = Some g2
            \<and> has_fetchPositions ex
            \<and> ps = pre @ p # post \<and> pos_symbol p \<notin> pos_symbol ` set post
            \<and> (\<forall>q \<in> set (pre @ [p]). contracts q \<noteq> Num 0
                  \<longrightarrow> \<not> isl (fetchTicker ex (pos_symbol q)))
            \<and> contracts p \<noteq> Num 0 \<and> unrealizedPnl p = Num (- 5)"
  define acc where "acc = snd (rest_spotLoop ex cc (baseCurrency g2) (usdcFirst (totalOf bd)) [])"
  have b: "balances g2 = rest_positionsLoop ex (pre @ p # post) acc"
    unfolding acc_def using rest_pass_reads [of ex cc bd gn bo bo2 g2 ps] h assms by blast
  have u: "js_or (unrealizedPnl p) (Num 0) = Num (- 5)"
    using h by (simp add: js_or_def)
  have "map_of (rest_positionsLoop ex (pre @ p # post) acc) (pos_symbol p)
           = Some \<lparr>symbol = pos_symbol p, amount = contracts p,
                    baseValue = js_or (unrealizedPnl p) (Num 0), type = futures\<rparr>"
    using rest_positionsLoop_present [of pre p ex post acc] h by blast
  then show "map_of (balances g2) (pos_symbol p)
                  = Some \<lparr>symbol = pos_symbol p, amount = contracts p,
                           baseValue = Num (- 5), type = futures\<rparr>"
    unfolding b u .
qed

theorem futures_valuation_witness:
  "ws_processBalanceData futConn offline (Some []) ''main'' bo0 []
     = (None, bo0(''main'' \<mapsto> usdGroup\<lparr>balances := [(''ETH/USDT:USDT'', lossAsset)],
                                          total := Num (- 5)\<rparr>), [])
   \<and> map_of (balances (usdGroup\<lparr>balances := [(''ETH/USDT:USDT'', lossAsset)],
                                 total := Num (- 5)\<rparr>)) (pos_symbol lossPos)
       = Some \<lparr>symbol = pos_symbol lossPos, amount = contracts lossPos,
                baseValue = Num (- 5), type = futures\<rparr>
   \<and> map_of (balances (usdGroup\<lparr>balances := [(''ETH/USDT:USDT'', lossAsset)],
                                 total := Num (- 5)\<rparr>)) (pos_symbol dustPos) = None
   \<and> rest_processBalanceData futConn offline (Some []) ''main'' bo0
     = (None, bo0(''main'' \<mapsto> usdGroup\<lparr>balances :=
                     [(''BTC/USDT:USDT'', dustAsset), (''ETH/USDT:USDT'', lossAsset)],
                   total := Num (- 5.005)\<rparr>))
   \<and> map_of (balances (usdGroup\<lparr>balances :=
                     [(''BTC/USDT:USDT'', dustAsset), (''ETH/USDT:USDT'', lossAsset)],
                   total := Num (- 5.005)\<rparr>)) (pos_symbol lossPos)
       = Some \<lparr>symbol = pos_symbol lossPos, amount = contracts lossPos,
                baseValue = Num (- 5), type = futures\<rparr>"
proof -
  let ?g = "usdGroup\<lparr>balances := [(''ETH/USDT:USDT'', lossAsset)], total := Num (- 5)\<rparr>"
  let ?g2 = "usdGroup\<lparr>balances :=
                     [(''BTC/USDT:USDT'', dustAsset), (''ETH/USDT:USDT'', lossAsset)],
                   total := Num (- 5.005)\<rparr>"
  have 1: "fetchPositions futConn = Inr [dustPos, lossPos]"
    by (simp add: futConn_def plainConn_def)
  have 2: "ws_processBalanceData \<in> positionPasses
             \<and> ws_processBalanceData futConn offline (Some []) ''main'' bo0 []
                 = (None, bo0(''main'' \<mapsto> ?g), [])
             \<and> (bo0(''main'' \<mapsto> ?g)) ''main'' = Some ?g"
    by (simp add: positionPasses_def ws_processBalanceData_def futConn_def dustPos_def lossPos_def
        lossAsset_def eval_defs)
  have 3: "has_fetchPositions futConn
            \<and> (ws_processBalanceData \<noteq> ws_processBalanceData \<longrightarrow> defaultType futConn = Some ''swap'')
            \<and> [dustPos, lossPos] = [dustPos] @ lossPos # []
            \<and> pos_symbol lossPos \<notin> pos_symbol ` set []
            \<and> (\<forall>q \<in> set ([dustPos] @ [lossPos]). contracts q \<noteq> Num 0 \<and> markets futConn (pos_symbol q)
                  \<longrightarrow> \<not> isl (fetchTicker futConn (pos_symbol q)))
            \<and> contracts lossPos \<noteq> Num 0
            \<and> markets futConn (pos_symbol lossPos)
            \<and> unrealizedPnl lossPos = Num (- 5)"
    by (simp add: futConn_def plainConn_def dustPos_def lossPos_def)
  have 4: "rest_processBalanceData futConn offline (Some []) ''main'' bo0 = (None, bo0(''main'' \<mapsto> ?g2))
            \<and> (bo0(''main'' \<mapsto> ?g2)) ''main'' = Some ?g2
            \<and> has_fetchPositions futConn
            \<and> [dustPos, lossPos] = [dustPos] @ lossPos # []
            \<and> pos_symbol lossPos \<notin> pos_symbol ` set []
            \<and> (\<forall>q \<in> set ([dustPos] @ [lossPos]). contracts q \<noteq> Num 0
                  \<longrightarrow> \<not> isl (fetchTicker futConn (pos_symbol q)))
            \<and> contracts lossPos \<noteq> Num 0 \<and> unrealizedPnl lossPos = Num (- 5)"
    by (simp add: rest_processBalanceData_def rest_positions_def usdcFirst_def futConn_def
        dustPos_def lossPos_def dustAsset_def lossAsset_def eval_defs)
  have 5: "map_of (balances ?g) (pos_symbol dustPos) = None" by (simp add: dustPos_def)
  note inst = futures_valuation
    [where ex = futConn and ps = "[dustPos, lossPos]" and pass = ws_processBalanceData
       and cc = offline and bd = "Some []" and gn = "''main''" and bo = bo0 and cache = "[]"
       and e = None and bo' = "bo0(''main'' \<mapsto> ?g)" and cache' = "[]" and g' = ?g
       and pre = "[dustPos]" and p = lossPos and post = "[]"
       and ?bo2.0 = "bo0(''main'' \<mapsto> ?g2)" and ?g2.0 = ?g2,
     OF 1]
  from inst 2 3 4 5 show ?thesis by blast
qed

text \<open>
  C8 as stated fails.  In \<open>rest.js\<close>, which has no dust rule for positions,
  \<open>contracts = 10, unrealizedPnl = -0.005\<close> is published.  In \<open>ws.js\<close> the position
  with \<open>unrealizedPnl = -5\<close> is not published when the ticker of an earlier position
  throws, which ends the loop; and it is replaced when a later position of the same
  instrument is recorded.
\<close>

theorem futures_claim_fails:
  "rest_processBalanceData futConn offline (Some []) ''main'' bo0
     = (None, bo0(''main'' \<mapsto> usdGroup\<lparr>balances :=
                     [(''BTC/USDT:USDT'', dustAsset), (''ETH/USDT:USDT'', lossAsset)],
                   total := Num (- 5.005)\<rparr>))
   \<and> baseValue dustAsset = unrealizedPnl dustPos
   \<and> js_lt (js_abs (unrealizedPnl dustPos)) (Num 0.01)
   \<and> fetchPositions tickerDownConn = Inr [dustPos, lossPos]
   \<and> unrealizedPnl lossPos = Num (- 5)
   \<and> ws_processBalanceData tickerDownConn offline (Some []) ''main'' bo0 []
     = (None, bo0(''main'' \<mapsto> usdGroup\<lparr>balances := [], total := Num 0\<rparr>), [])
   \<and> fetchPositions overwriteConn = Inr [lossPos, gainPos]
   \<and> ws_processBalanceData overwriteConn offline (Some []) ''main'' bo0 []
     = (None, bo0(''main'' \<mapsto> usdGroup\<lparr>balances := [(''ETH/USDT:USDT'', gainAsset)],
                                          total := Num 7\<rparr>), [])
   \<and> baseValue gainAsset = Num 7"
  by (simp add: rest_processBalanceData_def rest_positions_def usdcFirst_def
      ws_processBalanceData_def futConn_def tickerDownConn_def overwriteConn_def
      dustPos_def lossPos_def gainPos_def dustAsset_def lossAsset_def gainAsset_def eval_defs)

subsection \<open>Failed snapshot fetch\<close>

lemma isl_case: "isl x \<Longrightarrow> (case x of Inl e \<Rightarrow> a | Inr v \<Rightarrow> f v) = a"
  by (cases x) simp_all

lemma fetch_throws_ws: "ws_fetchThrows ex \<Longrightarrow> ws_fetchCompleteBalance ex = Some []"
  by (cases "fetchBalance ex NoParams")
    (auto simp: ws_fetchThrows_def ws_fetchCompleteBalance_def isl_case split: if_splits)

lemma fetch_throws_fund: "fund_fetchThrows ex \<Longrightarrow> fund_fetchCompleteBalance ex = Some []"
  by (cases "fetchBalance ex NoParams")
    (auto simp: fund_fetchThrows_def fund_fetchCompleteBalance_def isl_case split: if_splits)

lemma fetch_throws_rest: "rest_fetchThrows ex \<Longrightarrow> rest_fetchCompleteBalance ex = Some []"
  by (cases "fetchBalance ex NoParams")
    (auto simp: rest_fetchThrows_def rest_fetchCompleteBalance_def isl_case split: if_splits)

lemma revalued:
  assumes "distinct (map fst cache)" and "notPositionSymbol ex c"
    and "map_of cache c = Some amt" and "valueEntry ex cc b c amt = Some a"
  shows "map_of (ws_positions ex (processCache ex cc b cache [])) c = Some a"
    and "map_of (fund_positions ex (processCache ex cc b cache [])) c = Some a"
  using assms
  by (simp_all add: ws_positions_frame fund_positions_frame map_of_processCache)

text \<open>
  C9.  \<open>fetchCompleteBalance\<close> has no exceptional result: when one of the calls
  it makes throws (the balance fetch; for coinbase also the account fetch of
  \<open>ws.js\<close> or the cash fetch of \<open>rest.js\<close>), its answer is
  \<open>{total: {}}\<close>, in \<open>ws.js\<close> (both revisions) and in \<open>rest.js\<close>.  The
  polling turn of \<open>ws.js\<close> that follows ends without an exception and leaves the
  cache as it was; the balances it publishes are the valuation of that cache (followed
  by the positions), so every cached currency that can be valued, and whose key no
  position takes, is still published.
\<close>

theorem failed_fetch_keeps_cache:
  assumes "bo gn = Some g" and "distinct (map fst cache)"
  shows "(rest_fetchThrows ex \<longrightarrow> rest_fetchCompleteBalance ex = Some [])
       \<and> (ws_fetchThrows ex \<longrightarrow>
            ws_fetchCompleteBalance ex = Some []
            \<and> (\<exists>bo' g'. ws_poll ex cc gn bo cache = (None, bo', cache) \<and> bo' gn = Some g'
                  \<and> balances g' = ws_positions ex (processCache ex cc (baseCurrency g) cache [])
                  \<and> (\<forall>c amt a. map_of cache c = Some amt
                         \<and> valueEntry ex cc (baseCurrency g) c amt = Some a
                         \<and> notPositionSymbol ex c \<longrightarrow> map_of (balances g') c = Some a)))
       \<and> (fund_fetchThrows ex \<longrightarrow>
            fund_fetchCompleteBalance ex = Some []
            \<and> (\<exists>bo' g'. fund_poll ex cc gn bo cache = (None, bo', cache) \<and> bo' gn = Some g'
                  \<and> balances g' = fund_positions ex (processCache ex cc (baseCurrency g) cache [])
                  \<and> (\<forall>c amt a. map_of cache c = Some amt
                         \<and> valueEntry ex cc (baseCurrency g) c amt = Some a
                         \<and> notPositionSymbol ex c \<longrightarrow> map_of (balances g') c = Some a)))"
proof (intro conjI impI)
  assume "rest_fetchThrows ex"
  then show "rest_fetchCompleteBalance ex = Some []" by (rule fetch_throws_rest)
next
  assume "ws_fetchThrows ex"
  then show w: "ws_fetchCompleteBalance ex = Some []" by (rule fetch_throws_ws)
  let ?spot = "processCache ex cc (baseCurrency g) cache []"
  let ?gw = "g\<lparr>balances := ws_positions ex ?spot, total := sumBaseValues (ws_positions ex ?spot)\<rparr>"
  have "ws_poll ex cc gn bo cache = (None, bo(gn \<mapsto> ?gw), cache)"
    using assms(1) w by (simp add: ws_poll_def ws_processBalanceData_def totalOf_def Let_def)
  moreover have "(bo(gn \<mapsto> ?gw)) gn = Some ?gw" by simp
  moreover have "balances ?gw = ws_positions ex ?spot" by simp
  moreover have "\<forall>c amt a. map_of cache c = Some amt
                         \<and> valueEntry ex cc (baseCurrency g) c amt = Some a
                         \<and> notPositionSymbol ex c \<longrightarrow> map_of (balances ?gw) c = Some a"
    using revalued(1) [OF assms(2)] by simp
  ultimately show "\<exists>bo' g'. ws_poll ex cc gn bo cache = (None, bo', cache) \<and> bo' gn = Some g'
                  \<and> balances g' = ws_positions ex (processCache ex cc (baseCurrency g) cache [])
                  \<and> (\<forall>c amt a. map_of cache c = Some amt
                         \<and> valueEntry ex cc (baseCurrency g) c amt = Some a
                         \<and> notPositionSymbol ex c \<longrightarrow> map_of (balances g') c = Some a)"
    by blast
next
  assume "fund_fetchThrows ex"
  then show f: "fund_fetchCompleteBalance ex = Some []" by (rule fetch_throws_fund)
  let ?spot = "processCache ex cc (baseCurrency g) cache []"
  let ?g0 = "g\<lparr>balances := fund_positions ex ?spot, total := sumBaseValues (fund_positions ex ?spot)\<rparr>"
  let ?gf = "fundAccountStep ex ?g0"
  have "fund_poll ex cc gn bo cache = (None, bo(gn \<mapsto> ?gf), cache)"
    using assms(1) f by (simp add: fund_poll_def fund_processBalanceData_def totalOf_def Let_def)
  moreover have "(bo(gn \<mapsto> ?gf)) gn = Some ?gf" by simp
  moreover have bf: "balances ?gf = fund_positions ex ?spot"
    by (simp add: fundAccountStep_primary)
  moreover have "\<forall>c amt a. map_of cache c = Some amt
                         \<and> valueEntry ex cc (baseCurrency g) c amt = Some a
                         \<and> notPositionSymbol ex c \<longrightarrow> map_of (balances ?gf) c = Some a"
    unfolding bf using revalued(2) [OF assms(2)] by simp
  ultimately show "\<exists>bo' g'. fund_poll ex cc gn bo cache = (None, bo', cache) \<and> bo' gn = Some g'
                  \<and> balances g' = fund_positions ex (processCache ex cc (baseCurrency g) cache [])
                  \<and> (\<forall>c amt a. map_of cache c = Some amt
                         \<and> valueEntry ex cc (baseCurrency g) c amt = Some a
                         \<and> notPositionSymbol ex c \<longrightarrow> map_of (balances g') c = Some a)"
    by blast
qed

theorem failed_fetch_keeps_cache_witness:
  "ws_fetchCompleteBalance btcConn = Some []
   \<and> ws_poll btcConn offline ''main''
        (bo0(''main'' \<mapsto> usdGroup\<lparr>balances := [(''BTC'', btcAsset)], total := Num 30000\<rparr>))
        [(''BTC'', Num 0.5)]
     = (None,
        bo0(''main'' \<mapsto> usdGroup\<lparr>balances := [(''BTC'', btcAsset)], total := Num 30000\<rparr>),
        [(''BTC'', Num 0.5)])"
proof -
  let ?g = "usdGroup\<lparr>balances := [(''BTC'', btcAsset)], total := Num 30000\<rparr>"
  have 1: "(bo0(''main'' \<mapsto> ?g)) ''main'' = Some ?g" by simp
  have 2: "distinct (map fst [(''BTC'', Num 0.5)])" by simp
  have 3: "ws_fetchThrows btcConn" by (simp add: ws_fetchThrows_def btcConn_def plainConn_def)
  note inst = failed_fetch_keeps_cache
    [where bo = "bo0(''main'' \<mapsto> ?g)" and gn = "''main''" and ex = btcConn and cc = offline, OF 1 2]
  from inst 3 have a: "ws_fetchCompleteBalance btcConn = Some []" by blast
  have "ws_poll btcConn offline ''main'' (bo0(''main'' \<mapsto> ?g)) [(''BTC'', Num 0.5)]
          = (None, bo0(''main'' \<mapsto> ?g), [(''BTC'', Num 0.5)])"
    by (simp add: ws_poll_def ws_fetchCompleteBalance_def ws_processBalanceData_def btcConn_def
        btcAsset_def eval_defs)
  with a show ?thesis ..
qed

subsection \<open>Supplementary balances of fund accounts\<close>

lemma lookupPrice_cong:
  "markets ex' = markets ex \<Longrightarrow> fetchTicker ex' = fetchTicker ex
     \<Longrightarrow> lookupPrice ex' cc c b = lookupPrice ex cc c b"
  by (simp add: lookupPrice_def firstMarket_def cong: option.case_cong)

lemma valueEntry_cong:
  "markets ex' = markets ex \<Longrightarrow> fetchTicker ex' = fetchTicker ex
     \<Longrightarrow> valueEntry ex' cc b c amt = valueEntry ex cc b c amt"
  by (simp add: valueEntry_def lookupPrice_cong [of ex' ex] cong: if_cong option.case_cong)

lemma processCache_cong:
  "markets ex' = markets ex \<Longrightarrow> fetchTicker ex' = fetchTicker ex
     \<Longrightarrow> processCache ex' cc b cache acc = processCache ex cc b cache acc"
  by (induction cache arbitrary: acc) (auto simp: valueEntry_cong [of ex' ex] split: option.splits)

lemma positionsLoop_cong:
  "markets ex' = markets ex \<Longrightarrow> fetchTicker ex' = fetchTicker ex
     \<Longrightarrow> positionsLoop ex' ps acc = positionsLoop ex ps acc"
  by (induction ps arbitrary: acc) (auto simp: Let_def split: sum.splits)

lemma fund_positions_cong:
  "fund_positions (ex\<lparr>fetchBalance := fb, loadMarkets := lm, privateEarnGetUniLends := pe,
                      isFundAccount := fl\<rparr>) acc = fund_positions ex acc"
  by (simp add: fund_positions_def
      positionsLoop_cong [of "ex\<lparr>fetchBalance := fb, loadMarkets := lm,
         privateEarnGetUniLends := pe, isFundAccount := fl\<rparr>" ex]
      split: sum.splits)

lemma fundPass_result:
  assumes "pass \<in> fundPasses" and "bo gn = Some g"
  shows "pass ex cc bd gn bo cache =
           (None,
            bo(gn \<mapsto> fundAccountStep ex
                 (g\<lparr>balances := fund_positions ex
                        (processCache ex cc (baseCurrency g) (updateCache cache (totalOf bd)) []),
                     total := sumBaseValues (fund_positions ex
                        (processCache ex cc (baseCurrency g) (updateCache cache (totalOf bd)) []))\<rparr>)),
            updateCache cache (totalOf bd))"
  using assms
  by (auto simp: fundPasses_def fund_processBalanceData_def fund_compileAndUpdateBalances_def Let_def)

lemma earn_fails:
  "loadMarkets ex \<noteq> None \<or> isl (privateEarnGetUniLends ex) \<Longrightarrow> fetchGateioEarnBalance ex = Num 0"
  by (auto simp: fetchGateioEarnBalance_def isl_case split: option.splits)


text \<open>
  C10.  \<open>monitorBalances\<close> flags a connection as a fund account exactly when the
  account name ends with \<open>" Fund"\<close> and \<open>options.defaultType\<close> is
  \<open>swap\<close>.  A pass of the fund-account revision ends without an exception; the
  balances and the total it publishes are the same whatever the spot fetch, the markets
  load and the earn fetch answer (or throw) and whatever the flag.  For a fund account the
  pass attaches \<open>spotBalance\<close> (0 when the spot fetch throws or has no
  \<open>total\<close>, else the valuation currency's spot total or 0) and \<open>earnBalance\<close>
  (the earn balance for gateio, 0 for other exchanges and 0 when loading the markets or
  fetching the lends throws); for other connections both fields stay as they were.
\<close>

theorem fund_account_supplement:
  assumes "pass \<in> fundPasses" and "bo gn = Some g"
  shows "(fund_monitorBalances acct cls gnA boA = Some (ex1, bo1, c1)
            \<and> cls (acc_e acct) = Some ex0 \<and> \<not> isFundAccount ex0
            \<longrightarrow> (isFundAccount ex1
                  \<longleftrightarrow> endsWith (acc_n acct) '' Fund'' \<and> acc_defaultType acct = Some ''swap''))
       \<and> (\<exists>bo' g'.
            pass ex cc bd gn bo cache = (None, bo', updateCache cache (totalOf bd))
            \<and> bo' gn = Some g'
            \<and> total g' = sumBaseValues (balances g')
            \<and> (\<forall>fb lm pe fl. \<exists>bo2 g2.
                  pass (ex\<lparr>fetchBalance := fb, loadMarkets := lm, privateEarnGetUniLends := pe,
                            isFundAccount := fl\<rparr>) cc bd gn bo cache
                    = (None, bo2, updateCache cache (totalOf bd))
                  \<and> bo2 gn = Some g2 \<and> balances g2 = balances g' \<and> total g2 = total g')
            \<and> (isFundAccount ex \<longrightarrow>
                  (isl (fetchBalance ex (TypeParam ''spot''))
                     \<or> fetchBalance ex (TypeParam ''spot'') = Inr None
                     \<longrightarrow> spotBalance g' = Some (Num 0))
                  \<and> (\<forall>t. fetchBalance ex (TypeParam ''spot'') = Inr (Some t)
                        \<longrightarrow> spotBalance g' = Some (js_or (js_get t (baseCurrency g)) (Num 0)))
                  \<and> earnBalance g'
                      = Some (if ex_id ex = ''gateio'' then fetchGateioEarnBalance ex else Num 0)
                  \<and> (loadMarkets ex \<noteq> None \<or> isl (privateEarnGetUniLends ex)
                        \<longrightarrow> earnBalance g' = Some (Num 0)))
            \<and> (\<not> isFundAccount ex \<longrightarrow>
                  spotBalance g' = spotBalance g \<and> earnBalance g' = earnBalance g))"
proof (intro conjI)
  show "fund_monitorBalances acct cls gnA boA = Some (ex1, bo1, c1)
            \<and> cls (acc_e acct) = Some ex0 \<and> \<not> isFundAccount ex0
            \<longrightarrow> (isFundAccount ex1
                  \<longleftrightarrow> endsWith (acc_n acct) '' Fund'' \<and> acc_defaultType acct = Some ''swap'')"
    by (auto simp: fund_monitorBalances_def Let_def split: if_splits)
next
  let ?c = "updateCache cache (totalOf bd)"
  let ?assets = "fund_positions ex (processCache ex cc (baseCurrency g) ?c [])"
  let ?g0 = "g\<lparr>balances := ?assets, total := sumBaseValues ?assets\<rparr>"
  let ?g' = "fundAccountStep ex ?g0"
  have r: "pass ex cc bd gn bo cache = (None, bo(gn \<mapsto> ?g'), ?c)"
    by (rule fundPass_result [where bo = bo and gn = gn, OF assms])
  have g': "(bo(gn \<mapsto> ?g')) gn = Some ?g'" by simp
  have b: "balances ?g' = ?assets" and t: "total ?g' = sumBaseValues ?assets"
    by (simp_all add: fundAccountStep_primary)
  have tot: "total ?g' = sumBaseValues (balances ?g')"
    by (simp add: b t)
  have indep: "\<exists>bo2 g2.
        pass (ex\<lparr>fetchBalance := fb, loadMarkets := lm, privateEarnGetUniLends := pe,
                  isFundAccount := fl\<rparr>) cc bd gn bo cache = (None, bo2, ?c)
        \<and> bo2 gn = Some g2 \<and> balances g2 = balances ?g' \<and> total g2 = total ?g'" for fb lm pe fl
  proof -
    let ?ex = "ex\<lparr>fetchBalance := fb, loadMarkets := lm, privateEarnGetUniLends := pe,
                   isFundAccount := fl\<rparr>"
    have same: "fund_positions ?ex (processCache ?ex cc (baseCurrency g) ?c []) = ?assets"
      by (simp add: fund_positions_cong processCache_cong [of ?ex ex])
    let ?g2 = "fundAccountStep ?ex (g\<lparr>balances := ?assets, total := sumBaseValues ?assets\<rparr>)"
    have "pass ?ex cc bd gn bo cache = (None, bo(gn \<mapsto> ?g2), ?c)"
      using fundPass_result [where bo = bo and gn = gn and ex = ?ex and cc = cc and bd = bd
          and cache = cache, OF assms]
      unfolding same .
    moreover have "(bo(gn \<mapsto> ?g2)) gn = Some ?g2" by simp
    moreover have "balances ?g2 = balances ?g'" "total ?g2 = total ?g'"
      by (simp_all add: fundAccountStep_primary)
    ultimately show ?thesis by blast
  qed
  have fund: "isFundAccount ex \<longrightarrow>
                  (isl (fetchBalance ex (TypeParam ''spot''))
                     \<or> fetchBalance ex (TypeParam ''spot'') = Inr None
                     \<longrightarrow> spotBalance ?g' = Some (Num 0))
                  \<and> (\<forall>t. fetchBalance ex (TypeParam ''spot'') = Inr (Some t)
                        \<longrightarrow> spotBalance ?g' = Some (js_or (js_get t (baseCurrency g)) (Num 0)))
                  \<and> earnBalance ?g'
                      = Some (if ex_id ex = ''gateio'' then fetchGateioEarnBalance ex else Num 0)
                  \<and> (loadMarkets ex \<noteq> None \<or> isl (privateEarnGetUniLends ex)
                        \<longrightarrow> earnBalance ?g' = Some (Num 0))"
    using earn_fails [of ex]
    by (auto simp: fundAccountStep_def Let_def isl_case)
  have plain: "\<not> isFundAccount ex \<longrightarrow>
                  spotBalance ?g' = spotBalance g \<and> earnBalance ?g' = earnBalance g"
    by (simp add: fundAccountStep_def)
  from r g' tot indep fund plain
  show "\<exists>bo' g'.
            pass ex cc bd gn bo cache = (None, bo', updateCache cache (totalOf bd))
            \<and> bo' gn = Some g'
            \<and> total g' = sumBaseValues (balances g')
            \<and> (\<forall>fb lm pe fl. \<exists>bo2 g2.
                  pass (ex\<lparr>fetchBalance := fb, loadMarkets := lm, privateEarnGetUniLends := pe,
                            isFundAccount := fl\<rparr>) cc bd gn bo cache
                    = (None, bo2, updateCache cache (totalOf bd))
                  \<and> bo2 gn = Some g2 \<and> balances g2 = balances g' \<and> total g2 = total g')
            \<and> (isFundAccount ex \<longrightarrow>
                  (isl (fetchBalance ex (TypeParam ''spot''))
                     \<or> fetchBalance ex (TypeParam ''spot'') = Inr None
                     \<longrightarrow> spotBalance g' = Some (Num 0))
                  \<and> (\<forall>t. fetchBalance ex (TypeParam ''spot'') = Inr (Some t)
                        \<longrightarrow> spotBalance g' = Some (js_or (js_get t (baseCurrency g)) (Num 0)))
                  \<and> earnBalance g'
                      = Some (if ex_id ex = ''gateio'' then fetchGateioEarnBalance ex else Num 0)
                  \<and> (loadMarkets ex \<noteq> None \<or> isl (privateEarnGetUniLends ex)
                        \<longrightarrow> earnBalance g' = Some (Num 0)))
            \<and> (\<not> isFundAccount ex \<longrightarrow>
                  spotBalance g' = spotBalance g \<and> earnBalance g' = earnBalance g)"
    by blast
qed


theorem fund_account_supplement_witness:
  "fund_processBalanceData fundConnDown offline (Some [(''USD'', Num 100)]) ''main'' bo0 []
     = (None,
        bo0(''main'' \<mapsto> usdGroup\<lparr>balances := fundBalances, total := Num 95,
              spotBalance := Some (Num 0), earnBalance := Some (Num 0)\<rparr>),
        [(''USD'', Num 100)])
   \<and> fund_processBalanceData fundConn offline (Some [(''USD'', Num 100)]) ''main'' bo0 []
     = (None,
        bo0(''main'' \<mapsto> usdGroup\<lparr>balances := fundBalances, total := Num 95,
              spotBalance := Some (Num 250), earnBalance := Some (Num 40)\<rparr>),
        [(''USD'', Num 100)])
   \<and> fund_monitorBalances fundAcct gateClass ''main'' Map.empty
     = Some (futConn\<lparr>isFundAccount := True\<rparr>, [''main'' \<mapsto> usdGroup], [])
   \<and> isFundAccount (futConn\<lparr>isFundAccount := True\<rparr>)
       = (endsWith (acc_n fundAcct) '' Fund'' \<and> acc_defaultType fundAcct = Some ''swap'')"
proof -
  let ?bd = "Some [(''USD'', Num 100)]"
  have 1: "fund_processBalanceData \<in> fundPasses" by (simp add: fundPasses_def)
  have 2: "bo0 ''main'' = Some usdGroup" by (simp add: bo0_def)
  have down: "fund_processBalanceData fundConnDown offline ?bd ''main'' bo0 []
     = (None,
        bo0(''main'' \<mapsto> usdGroup\<lparr>balances := fundBalances, total := Num 95,
              spotBalance := Some (Num 0), earnBalance := Some (Num 0)\<rparr>),
        [(''USD'', Num 100)])"
    by (simp add: fund_processBalanceData_def fundConnDown_def fundConn_def futConn_def
        fundBalances_def usd100_def dustPos_def lossPos_def fetchGateioEarnBalance_def eval_defs)
  have up: "fund_processBalanceData fundConn offline ?bd ''main'' bo0 []
     = (None,
        bo0(''main'' \<mapsto> usdGroup\<lparr>balances := fundBalances, total := Num 95,
              spotBalance := Some (Num 250), earnBalance := Some (Num 40)\<rparr>),
        [(''USD'', Num 100)])"
    by (simp add: fund_processBalanceData_def fundConn_def futConn_def
        fundBalances_def usd100_def dustPos_def lossPos_def fetchGateioEarnBalance_def eval_defs)
  have mon: "fund_monitorBalances fundAcct gateClass ''main'' Map.empty
     = Some (futConn\<lparr>isFundAccount := True\<rparr>, [''main'' \<mapsto> usdGroup], [])"
    by (simp add: fund_monitorBalances_def fundAcct_def gateClass_def endsWith_def usdGroup_def)
  have cl: "gateClass (acc_e fundAcct) = Some futConn"
    by (simp add: fundAcct_def gateClass_def)
  have 3: "\<not> isFundAccount futConn" by (simp add: futConn_def plainConn_def)
  note inst = fund_account_supplement
    [where bo = bo0 and gn = "''main''" and pass = fund_processBalanceData
       and acct = fundAcct and cls = gateClass and ?ex0.0 = futConn and gnA = "''main''"
       and boA = Map.empty
       and ?ex1.0 = "futConn\<lparr>isFundAccount := True\<rparr>" and ?bo1.0 = "[''main'' \<mapsto> usdGroup]"
       and ?c1.0 = "[]",
     OF 1 2]
  from inst mon cl 3
  have "isFundAccount (futConn\<lparr>isFundAccount := True\<rparr>)
       = (endsWith (acc_n fundAcct) '' Fund'' \<and> acc_defaultType fundAcct = Some ''swap'')"
    by blast
  with down up mon show ?thesis by blast
qed

subsection \<open>Total consistency\<close>

text \<open>
  The passes of \<open>ws.js\<close> keep every group's total equal to the sum over its
  balances, and so does the pass of \<open>rest.js\<close> when it ends without an exception;
  the record \<open>monitorBalances\<close> creates has it.
\<close>

lemma cachePass_total_consistent:
  assumes "pass \<in> cachePasses" and "total_consistent bo"
    and "pass ex cc bd gn bo cache = (e, bo', cache')"
  shows "total_consistent bo'"
proof (cases "bo gn")
  case None
  then have "bo' = bo"
    using assms(1,3)
    by (auto simp: cachePasses_def ws_processBalanceData_def ws_compileAndUpdateBalances_def
        fund_processBalanceData_def fund_compileAndUpdateBalances_def Let_def)
  then show ?thesis using assms(2) by simp
next
  case (Some g)
  obtain bo2 g2 where r: "pass ex cc bd gn bo cache = (None, bo2, updateCache cache (totalOf bd))"
    and "bo2 gn = Some g2"
    using cachePass_defined [where bo = bo and gn = gn, OF assms(1) Some] by blast
  have eq: "bo2 = bo'" using r assms(3) by simp
  have other: "bo' name = bo name" if "name \<noteq> gn" for name
    using assms(1,3) Some that
    by (auto simp: cachePasses_def ws_processBalanceData_def ws_compileAndUpdateBalances_def
        fund_processBalanceData_def fund_compileAndUpdateBalances_def Let_def)
  show ?thesis
    unfolding total_consistent_def
  proof (intro allI impI)
    fix name g'
    assume g': "bo' name = Some g'"
    show "total g' = sumBaseValues (balances g')"
    proof (cases "name = gn")
      case True
      then show ?thesis using cachePass_Some [OF assms(1,3)] g' by blast
    next
      case False
      then show ?thesis using other g' assms(2) by (simp add: total_consistent_def)
    qed
  qed
qed

lemma rest_total_consistent:
  assumes "total_consistent bo" and "rest_processBalanceData ex cc bd gn bo = (None, bo')"
  shows "total_consistent bo'"
proof (cases "bo gn")
  case None
  then show ?thesis using assms by (simp add: rest_processBalanceData_def)
next
  case (Some g)
  have other: "bo' name = bo name" if "name \<noteq> gn" for name
    using assms(2) Some that
    by (auto simp: rest_processBalanceData_def Let_def split: prod.splits option.splits)
  show ?thesis
    unfolding total_consistent_def
  proof (intro allI impI)
    fix name g'
    assume g': "bo' name = Some g'"
    show "total g' = sumBaseValues (balances g')"
    proof (cases "name = gn")
      case True
      then show ?thesis using rest_pass_Some [OF assms(2)] g' by blast
    next
      case False
      then show ?thesis using other g' assms(1) by (simp add: total_consistent_def)
    qed
  qed
qed

lemma monitorBalances_total_consistent:
  assumes "total_consistent bo" and "fund_monitorBalances acct cls gn bo = Some (ex, bo', c)"
  shows "total_consistent bo'"
  using assms
  by (auto simp: fund_monitorBalances_def total_consistent_def sumBaseValues_def Let_def
      split: option.splits if_splits)

text \<open>
  C1.  The pass of \<open>rest.js\<close> writes the assets into the published record as it
  goes and recomputes the total at its end, and nothing inside the pass catches a ticker
  that throws.  With the snapshot \<open>{USD: 50, BTC: 1}\<close>, BTC/USD listed and its
  ticker throwing, the pass ends with the exception, the group publishes the USD asset
  (sum 50) and its total is still the 0 it had.  The pass of \<open>ws.js\<close> on the same
  input catches the exception and publishes the total 50.
\<close>

theorem rest_aborted_pass_stale_total:
  "rest_processBalanceData btcDownConn offline (Some [(''USD'', Num 50), (''BTC'', Num 1)])
       ''main'' bo0
     = (Some (Error ''timeout''), bo0(''main'' \<mapsto> usdGroup\<lparr>balances := [(''USD'', usd50)]\<rparr>))
   \<and> total (usdGroup\<lparr>balances := [(''USD'', usd50)]\<rparr>) = Num 0
   \<and> sumBaseValues (balances (usdGroup\<lparr>balances := [(''USD'', usd50)]\<rparr>)) = Num 50
   \<and> ws_processBalanceData btcDownConn offline (Some [(''USD'', Num 50), (''BTC'', Num 1)])
       ''main'' bo0 []
     = (None, bo0(''main'' \<mapsto> usdGroup\<lparr>balances := [(''USD'', usd50)], total := Num 50\<rparr>),
        [(''USD'', Num 50), (''BTC'', Num 1)])"
proof -
  let ?g = "usdGroup\<lparr>balances := [(''USD'', usd50)]\<rparr>"
  have r: "rest_processBalanceData btcDownConn offline (Some [(''USD'', Num 50), (''BTC'', Num 1)])
       ''main'' bo0 = (Some (Error ''timeout''), bo0(''main'' \<mapsto> ?g))"
    by (simp add: rest_processBalanceData_def usdcFirst_def rest_valueEntry_def rest_lookupPrice_def
        btcDownConn_def usd50_def eval_defs)
  have t: "total ?g = Num 0" by (simp add: usdGroup_def)
  have s: "sumBaseValues (balances ?g) = Num 50" by (simp add: sumBaseValues_def usd50_def)
  have w: "ws_processBalanceData btcDownConn offline (Some [(''USD'', Num 50), (''BTC'', Num 1)])
       ''main'' bo0 []
     = (None, bo0(''main'' \<mapsto> usdGroup\<lparr>balances := [(''USD'', usd50)], total := Num 50\<rparr>),
        [(''USD'', Num 50), (''BTC'', Num 1)])"
    by (simp add: ws_processBalanceData_def btcDownConn_def usd50_def eval_defs)
  from r t s w show ?thesis by blast
qed

end
